theory Spec2Isabelle
  imports Complex_Main
begin

section \<open>Data model\<close>

text \<open>
  The three tables of \<^verbatim>\<open>init.sql\<close>, one record per row. Timestamps are integers
  (milliseconds since the epoch), SERIAL keys are integers. Columns called \<^verbatim>\<open>id\<close>,
  \<^verbatim>\<open>customer_id\<close>, \<^verbatim>\<open>created_at\<close> and \<^verbatim>\<open>updated_at\<close> occur in several tables
  and carry the table's initial as a prefix.
\<close>

record customer =
  c_id :: int
  phone_number :: string
  name :: "string option"
  first_message_at :: int
  last_message_at :: int
  total_messages :: int
  segment :: "string option"
  segment_updated_at :: "int option"
  c_created_at :: int
  c_updated_at :: int

record chat_session =
  s_id :: int
  s_customer_id :: int
  session_start :: int
  session_end :: "int option"
  message_count :: int
  is_active :: bool
  s_created_at :: int
  s_updated_at :: int

record message =
  m_id :: int
  m_customer_id :: int
  session_id :: int
  waha_message_id :: string
  chat_id :: string
  from_number :: string
  to_number :: "string option"
  message_body :: "string option"
  timestamp :: int
  is_from_me :: "bool option"
  status :: "string option"
  reply_to :: "string option"
  m_created_at :: int
  m_updated_at :: int

text \<open>
  The fields of \<^verbatim>\<open>WahaMessagePayload\<close> and \<^verbatim>\<open>WahaMessageStatusPayload\<close> that the
  services read. \<^verbatim>\<open>notifyName\<close> stands for \<^verbatim>\<open>payload._data?.notifyName\<close>; the event
  time \<^verbatim>\<open>timestamp\<close> is in whole seconds. Strings are lists of characters, so the
  length of an identifier is its number of characters. \<^verbatim>\<open>fromMe\<close> is \<open>None\<close> when the
  event leaves it out: the controller validates the request body but hands the body
  itself, not the parsed value with the schema's default, to the service. A \<open>None\<close> in a
  nullable column is SQL NULL.
\<close>

record payload =
  p_id :: string
  p_timestamp :: int
  p_from :: string
  fromMe :: "bool option"
  p_to :: "string option"
  body :: "string option"
  caption :: "string option"
  notifyName :: "string option"
  replyTo :: "string option"

record status_payload =
  sp_id :: string
  sp_status :: string

datatype level = Debug | Info | Warn | Error

datatype error =
    UniqueViolation string
  | InvalidTextRepresentation string
  | NumericValueOutOfRange string
  | JsError string
  | DatabaseServiceError string error
  | WhatsAppServiceError string "error option"
  | LLMServiceError string "error option"

text \<open>
  The store: the rows of the three tables in insertion order, the last value handed out
  by each SERIAL sequence, and the lines written by the logger (level and message).
  Sequences and log lines are outside transactional control. Of the constraints of
  \<^verbatim>\<open>init.sql\<close> the two UNIQUE keys are enforced; column widths, the integer range and
  lost connections are left out. Calls run one after the other: each is one atomic step.
\<close>

record store =
  customers :: "customer list"
  chat_sessions :: "chat_session list"
  messages :: "message list"
  customers_id_seq :: int
  chat_sessions_id_seq :: int
  messages_id_seq :: int
  logs :: "(level \<times> string) list"

definition empty_store :: store where
  "empty_store = \<lparr>customers = [], chat_sessions = [], messages = [],
     customers_id_seq = 0, chat_sessions_id_seq = 0, messages_id_seq = 0, logs = []\<rparr>"

definition logger :: "level \<Rightarrow> string \<Rightarrow> store \<Rightarrow> store" where
  "logger lvl msg s = s\<lparr>logs := logs s @ [(lvl, msg)]\<rparr>"

section \<open>DatabaseService\<close>

text \<open>
  \<^verbatim>\<open>DatabaseService.transaction\<close>: BEGIN, the callback, COMMIT; when the callback
  throws, ROLLBACK restores the rows as they were at BEGIN, the failure is logged and
  rethrown wrapped in a \<^verbatim>\<open>DatabaseServiceError\<close>.
\<close>

definition transaction ::
  "(store \<Rightarrow> (error + 'a) \<times> store) \<Rightarrow> store \<Rightarrow> (error + 'a) \<times> store" where
  "transaction callback s =
     (case callback s of
        (Inr result, s') \<Rightarrow> (Inr result, s')
      | (Inl e, s') \<Rightarrow>
          (Inl (DatabaseServiceError ''Transaction failed'' e),
           logger Error ''Transaction failed and was rolled back''
             (s'\<lparr>customers := customers s, chat_sessions := chat_sessions s,
                 messages := messages s\<rparr>)))"

section \<open>WhatsAppService\<close>

text \<open>JavaScript truthiness of an optional string, and \<^verbatim>\<open>a || b\<close> on such values.\<close>

fun truthy :: "string option \<Rightarrow> bool" where
  "truthy None = False"
| "truthy (Some v) = (v \<noteq> [])"

definition js_or :: "string option \<Rightarrow> string option \<Rightarrow> string option" where
  "js_or a b = (if truthy a then a else b)"

text \<open>
  \<^verbatim>\<open>waId.replace(/@[cg]\.us$/, '')\<close>: a trailing \<^verbatim>\<open>@c.us\<close> or \<^verbatim>\<open>@g.us\<close> is removed.
\<close>

definition extractPhoneNumber :: "string \<Rightarrow> string" where
  "extractPhoneNumber waId =
     (let n = length waId; suffix = drop (n - 5) waId in
      if 5 \<le> n \<and> (suffix = ''@c.us'' \<or> suffix = ''@g.us'') then take (n - 5) waId
      else waId)"

definition findOrCreateCustomer ::
  "int \<Rightarrow> string \<Rightarrow> payload \<Rightarrow> store \<Rightarrow> (error + customer) \<times> store" where
  "findOrCreateCustomer now phoneNumber payload s =
     (case filter (\<lambda>c. phone_number c = phoneNumber) (customers s) of
        row # _ \<Rightarrow> (Inr row, s)
      | [] \<Rightarrow>
          (let timestamp = p_timestamp payload * 1000;
               name = js_or (notifyName payload) None;
               new_id = customers_id_seq s + 1;
               s1 = s\<lparr>customers_id_seq := new_id\<rparr>;
               row = \<lparr>c_id = new_id, phone_number = phoneNumber, name = name,
                      first_message_at = timestamp, last_message_at = timestamp,
                      total_messages = 1, segment = None, segment_updated_at = None,
                      c_created_at = now, c_updated_at = now\<rparr>
           in if phoneNumber \<in> set (map phone_number (customers s))
              then (Inl (UniqueViolation ''customers_phone_number_key''), s1)
              else (Inr row,
                    logger Info ''New customer created''
                      (s1\<lparr>customers := customers s1 @ [row]\<rparr>))))"

text \<open>
  The SELECT keeps the customer's active sessions started less than 30 minutes before
  \<^verbatim>\<open>NOW()\<close>, latest start first (rows with equal start in table order), and takes the
  first.
\<close>

definition thirty_minutes :: int where
  "thirty_minutes = 30 * 60 * 1000"

definition findOrCreateChatSession :: "int \<Rightarrow> int \<Rightarrow> store \<Rightarrow> chat_session \<times> store" where
  "findOrCreateChatSession now customerId s =
     (case sort_key (\<lambda>r. - session_start r)
             (filter (\<lambda>r. s_customer_id r = customerId \<and> is_active r
                          \<and> session_start r > now - thirty_minutes) (chat_sessions s)) of
        row # _ \<Rightarrow> (row, s)
      | [] \<Rightarrow>
          (let closed = map (\<lambda>r. if s_customer_id r = customerId \<and> is_active r
                                  then r\<lparr>is_active := False, session_end := Some now,
                                         s_updated_at := now\<rparr>
                                  else r) (chat_sessions s);
               new_id = chat_sessions_id_seq s + 1;
               row = \<lparr>s_id = new_id, s_customer_id = customerId, session_start = now,
                      session_end = None, message_count = 0, is_active = True,
                      s_created_at = now, s_updated_at = now\<rparr>
           in (row,
               logger Debug ''New chat session created''
                 (s\<lparr>chat_sessions := closed @ [row], chat_sessions_id_seq := new_id\<rparr>))))"

definition saveMessage ::
  "int \<Rightarrow> int \<Rightarrow> int \<Rightarrow> payload \<Rightarrow> store \<Rightarrow> (error + message) \<times> store" where
  "saveMessage now customerId sessionId payload s =
     (let timestamp = p_timestamp payload * 1000;
          messageBody = js_or (js_or (body payload) (caption payload)) None;
          toNumber = (if truthy (p_to payload)
                      then map_option extractPhoneNumber (p_to payload) else None);
          new_id = messages_id_seq s + 1;
          s1 = s\<lparr>messages_id_seq := new_id\<rparr>;
          row = \<lparr>m_id = new_id, m_customer_id = customerId, session_id = sessionId,
                 waha_message_id = p_id payload, chat_id = p_from payload,
                 from_number = extractPhoneNumber (p_from payload), to_number = toNumber,
                 message_body = messageBody, timestamp = timestamp,
                 is_from_me = fromMe payload, status = None,
                 reply_to = js_or (replyTo payload) None,
                 m_created_at = now, m_updated_at = now\<rparr>
      in if p_id payload \<in> set (map waha_message_id (messages s))
         then (Inl (UniqueViolation ''messages_waha_message_id_key''), s1)
         else (Inr row, s1\<lparr>messages := messages s1 @ [row]\<rparr>))"

definition updateCustomerStats :: "int \<Rightarrow> int \<Rightarrow> store \<Rightarrow> store" where
  "updateCustomerStats now customerId s =
     s\<lparr>customers :=
         map (\<lambda>c. if c_id c = customerId
                  then c\<lparr>total_messages := total_messages c + 1, last_message_at := now,
                         c_updated_at := now\<rparr>
                  else c) (customers s)\<rparr>"

definition updateSessionStats :: "int \<Rightarrow> int \<Rightarrow> store \<Rightarrow> store" where
  "updateSessionStats now sessionId s =
     s\<lparr>chat_sessions :=
         map (\<lambda>r. if s_id r = sessionId
                  then r\<lparr>message_count := message_count r + 1, s_updated_at := now\<rparr>
                  else r) (chat_sessions s)\<rparr>"

text \<open>The callback that \<^verbatim>\<open>handleIncomingMessage\<close> passes to \<^verbatim>\<open>transaction\<close>.\<close>

definition handleIncomingMessage_tx :: "int \<Rightarrow> payload \<Rightarrow> store \<Rightarrow> (error + unit) \<times> store" where
  "handleIncomingMessage_tx now payload s =
     (let phoneNumber = extractPhoneNumber (p_from payload) in
      if phoneNumber = [] \<or> length phoneNumber < 10
      then (Inr (), logger Warn ''Invalid phone number detected'' s)
      else
        (case findOrCreateCustomer now phoneNumber payload s of
           (Inl e, s1) \<Rightarrow> (Inl e, s1)
         | (Inr customer, s1) \<Rightarrow>
             (case findOrCreateChatSession now (c_id customer) s1 of
                (session, s2) \<Rightarrow>
                  (case saveMessage now (c_id customer) (s_id session) payload s2 of
                     (Inl e, s3) \<Rightarrow> (Inl e, s3)
                   | (Inr _, s3) \<Rightarrow>
                       (Inr (),
                        updateSessionStats now (s_id session)
                          (updateCustomerStats now (c_id customer) s3))))))"

definition handleIncomingMessage :: "int \<Rightarrow> payload \<Rightarrow> store \<Rightarrow> (error + unit) \<times> store" where
  "handleIncomingMessage now payload s =
     (let s0 = logger Info ''Processing incoming message'' s in
      if fromMe payload = Some True then (Inr (), logger Debug ''Skipping message from self'' s0)
      else
        (case transaction (handleIncomingMessage_tx now payload) s0 of
           (Inr _, s1) \<Rightarrow> (Inr (), logger Info ''Message processed successfully'' s1)
         | (Inl e, s1) \<Rightarrow>
             (Inl (WhatsAppServiceError ''Failed to process incoming message'' (Some e)),
              logger Error ''Failed to handle incoming message'' s1)))"

definition handleMessageStatus ::
  "int \<Rightarrow> status_payload \<Rightarrow> store \<Rightarrow> (error + unit) \<times> store" where
  "handleMessageStatus now payload s =
     (let s0 = logger Debug ''Processing message status update'' s;
          rowCount = length (filter (\<lambda>m. waha_message_id m = sp_id payload) (messages s0));
          s1 = s0\<lparr>messages :=
                 map (\<lambda>m. if waha_message_id m = sp_id payload
                          then m\<lparr>status := Some (sp_status payload), m_updated_at := now\<rparr>
                          else m) (messages s0)\<rparr>
      in if rowCount = 0
         then (Inr (), logger Warn ''Message not found for status update'' s1)
         else (Inr (), logger Debug ''Message status updated'' s1))"


text \<open>
  A JavaScript number: a finite value, an infinity, or NaN. A number passed as a query
  parameter travels as its decimal text, which PostgreSQL reads as a 32-bit integer:
  text that is not an integer literal is rejected, an integer outside the range too.
\<close>

datatype js_number = Finite real | PosInfinity | NegInfinity | NaN

definition pg_integer :: "js_number \<Rightarrow> error + int" where
  "pg_integer n =
     (case n of
        Finite r \<Rightarrow>
          if r = of_int \<lfloor>r\<rfloor> \<and> \<bar>r\<bar> < 10 ^ 21
          then (if - 2147483648 \<le> \<lfloor>r\<rfloor> \<and> \<lfloor>r\<rfloor> \<le> 2147483647 then Inr \<lfloor>r\<rfloor>
                else Inl (NumericValueOutOfRange ''integer''))
          else Inl (InvalidTextRepresentation ''integer'')
      | _ \<Rightarrow> Inl (InvalidTextRepresentation ''integer''))"

text \<open>One entry of \<^verbatim>\<open>recentMessages\<close>, and the object \<^verbatim>\<open>getCustomerConversationHistory\<close> returns.\<close>

record recent_message =
  messageBody :: string
  r_timestamp :: int
  isFromMe :: "bool option"

record history =
  h_customerId :: int
  phoneNumber :: string
  h_name :: "string option"
  totalMessages :: int
  firstMessageAt :: int
  lastMessageAt :: int
  totalSessions :: int
  avgMessagesPerSession :: real
  daysAsCustomer :: int
  recentMessages :: "recent_message list"

definition day_ms :: int where
  "day_ms = 1000 * 60 * 60 * 24"

text \<open>
  \<^verbatim>\<open>getCustomerConversationHistory\<close>; \<^verbatim>\<open>now\<close> is \<^verbatim>\<open>Date.now()\<close>. A rejected query
  parameter fails the first \<^verbatim>\<open>databaseService.query\<close>, which logs and wraps the error;
  every failure inside the \<^verbatim>\<open>try\<close> is logged and wrapped again by the \<^verbatim>\<open>catch\<close>.
  Messages with equal timestamps keep their table order.
\<close>

definition getCustomerConversationHistory ::
  "int \<Rightarrow> js_number \<Rightarrow> store \<Rightarrow> (error + history) \<times> store" where
  "getCustomerConversationHistory now customerId s =
     (case pg_integer customerId of
        Inl e \<Rightarrow>
          (Inl (WhatsAppServiceError ''Failed to retrieve conversation history''
                  (Some (DatabaseServiceError ''Query execution failed'' e))),
           logger Error ''Failed to get customer conversation history''
             (logger Error ''Database query failed'' s))
      | Inr cid \<Rightarrow>
          (case filter (\<lambda>c. c_id c = cid) (customers s) of
             [] \<Rightarrow>
               (Inl (WhatsAppServiceError ''Failed to retrieve conversation history''
                       (Some (WhatsAppServiceError ''Customer with ID not found'' None))),
                logger Error ''Failed to get customer conversation history'' s)
           | customer # _ \<Rightarrow>
               (let messagesResult =
                      take 100 (sort_key (\<lambda>m. - timestamp m)
                        (filter (\<lambda>m. m_customer_id m = cid \<and> message_body m \<noteq> None)
                           (messages s)));
                    sessions = filter (\<lambda>r. s_customer_id r = cid) (chat_sessions s);
                    total_sessions = int (length sessions);
                    avg_messages_per_session =
                      (if sessions = [] then 0
                       else real_of_int (sum_list (map message_count sessions))
                            / real (length sessions))
                in (Inr \<lparr>h_customerId = c_id customer,
                         phoneNumber = phone_number customer,
                         h_name = name customer,
                         totalMessages = total_messages customer,
                         firstMessageAt = first_message_at customer,
                         lastMessageAt = last_message_at customer,
                         totalSessions = total_sessions,
                         avgMessagesPerSession = avg_messages_per_session,
                         daysAsCustomer = (now - first_message_at customer) div day_ms,
                         recentMessages =
                           map (\<lambda>row. \<lparr>messageBody = the (message_body row),
                                         r_timestamp = timestamp row,
                                         isFromMe = is_from_me row\<rparr>) messagesResult\<rparr>,
                    s))))"

definition updateCustomerSegment ::
  "int \<Rightarrow> js_number \<Rightarrow> string \<Rightarrow> store \<Rightarrow> (error + unit) \<times> store" where
  "updateCustomerSegment now customerId seg s =
     (case pg_integer customerId of
        Inl e \<Rightarrow>
          (Inl (WhatsAppServiceError ''Failed to update customer segment''
                  (Some (DatabaseServiceError ''Query execution failed'' e))),
           logger Error ''Failed to update customer segment''
             (logger Error ''Database query failed'' s))
      | Inr cid \<Rightarrow>
          (Inr (),
           logger Info ''Customer segment updated''
             (s\<lparr>customers :=
                  map (\<lambda>c. if c_id c = cid
                           then c\<lparr>segment := Some seg, segment_updated_at := Some now,
                                  c_updated_at := now\<rparr>
                           else c) (customers s)\<rparr>)))"


section \<open>LLMService\<close>

text \<open>
  \<^verbatim>\<open>calculateAverageResponseTime\<close>. \<^verbatim>\<open>Array.prototype.sort\<close> is stable, as \<open>sort_key\<close>
  is; the \<^verbatim>\<open>for\<close> loop runs over the index \<open>i\<close> with its two accumulators. Times are
  milliseconds, the result is in seconds; the division is exact.
\<close>

function response_loop :: "recent_message list \<Rightarrow> nat \<Rightarrow> int \<Rightarrow> nat \<Rightarrow> int \<times> nat" where
  "response_loop sortedMessages i totalResponseTime responseCount =
     (if i < length sortedMessages
      then (if isFromMe (sortedMessages ! i) \<noteq> Some True
               \<and> isFromMe (sortedMessages ! (i - 1)) = Some True
            then response_loop sortedMessages (i + 1)
                   (totalResponseTime
                     + (r_timestamp (sortedMessages ! i) - r_timestamp (sortedMessages ! (i - 1))))
                   (responseCount + 1)
            else response_loop sortedMessages (i + 1) totalResponseTime responseCount)
      else (totalResponseTime, responseCount))"
  by pat_completeness auto
termination
  by (relation "measure (\<lambda>(sortedMessages, i, t, c). length sortedMessages - i)") auto

declare response_loop.simps [simp del]

definition calculateAverageResponseTime :: "recent_message list \<Rightarrow> real" where
  "calculateAverageResponseTime msgs =
     (if length msgs < 2 then 0
      else
        (case response_loop (sort_key r_timestamp msgs) 1 0 0 of
           (totalResponseTime, responseCount) \<Rightarrow>
             if responseCount > 0
             then real_of_int totalResponseTime / real responseCount / 1000
             else 0))"

text \<open>
  The values \<^verbatim>\<open>JSON.parse\<close> can return. A number token gives a finite number or, on
  overflow, an infinity; it never gives NaN.
\<close>

datatype json_number = JFinite real | JInfinity | JNegInfinity

datatype json =
    JNull
  | JBool bool
  | JNumber json_number
  | JString string
  | JArray "json list"
  | JObject "(string \<times> json) list"

text \<open>
  Reading a property: \<open>Inl\<close> is the TypeError on \<^verbatim>\<open>null\<close>, \<open>Inr None\<close> is
  \<^verbatim>\<open>undefined\<close>. None of the property names read here exists on a string, number,
  boolean or array.
\<close>

fun property :: "json \<Rightarrow> string \<Rightarrow> error + json option" where
  "property JNull k = Inl (JsError ''TypeError'')"
| "property (JObject kvs) k = Inr (map_of kvs k)"
| "property _ k = Inr None"

fun json_truthy :: "json option \<Rightarrow> bool" where
  "json_truthy None = False"
| "json_truthy (Some JNull) = False"
| "json_truthy (Some (JBool b)) = b"
| "json_truthy (Some (JNumber (JFinite r))) = (r \<noteq> 0)"
| "json_truthy (Some (JNumber _)) = True"
| "json_truthy (Some (JString v)) = (v \<noteq> [])"
| "json_truthy (Some _) = True"

record segmentation_result =
  r_segment :: string
  confidence :: json_number
  reasoning :: json
  characteristics :: "json list"

definition validSegments :: "string list" where
  "validSegments =
     [''VIP_CUSTOMER'', ''REGULAR_CUSTOMER'', ''POTENTIAL_CUSTOMER'',
      ''SUPPORT_SEEKER'', ''PRICE_SENSITIVE'', ''INACTIVE_CUSTOMER'', ''NEW_CUSTOMER'']"

text \<open>
  \<^verbatim>\<open>response.match(/\{[\s\S]*\}/)\<close>: the match starts at the first opening brace and,
  the star being greedy, ends at the last closing brace after it.
\<close>

definition match_braces :: "string \<Rightarrow> string option" where
  "match_braces response =
     (case dropWhile (\<lambda>c. c \<noteq> CHR ''{'') response of
        [] \<Rightarrow> None
      | open_brace # rest \<Rightarrow>
          if CHR ''}'' \<in> set rest
          then Some (open_brace # rev (dropWhile (\<lambda>c. c \<noteq> CHR ''}'') (rev rest)))
          else None)"

text \<open>
  The body of the \<^verbatim>\<open>try\<close> block. \<open>JSON_parse\<close> is the built-in parser, \<open>None\<close> where it
  throws a SyntaxError; a \<open>JObject\<close> it returns lists the object's properties, each
  name once.
\<close>

definition parse_and_validate ::
  "(string \<Rightarrow> json option) \<Rightarrow> string \<Rightarrow> error + segmentation_result" where
  "parse_and_validate JSON_parse response =
     (case match_braces response of
        None \<Rightarrow> Inl (JsError ''No valid JSON found in LLM response'')
      | Some jsonMatch \<Rightarrow>
          (case JSON_parse jsonMatch of
             None \<Rightarrow> Inl (JsError ''SyntaxError'')
           | Some parsed \<Rightarrow>
               (case property parsed ''segment'' of
                  Inl e \<Rightarrow> Inl e
                | Inr seg \<Rightarrow>
                    (case seg of
                       Some (JString label) \<Rightarrow>
                         if label \<in> set validSegments
                         then
                           (case property parsed ''confidence'' of
                              Inl e \<Rightarrow> Inl e
                            | Inr (Some (JNumber (JFinite c))) \<Rightarrow>
                                if c < 0 \<or> c > 1 then Inl (JsError ''Invalid confidence score'')
                                else
                                  (case (property parsed ''reasoning'',
                                         property parsed ''characteristics'') of
                                     (Inr r, Inr ch) \<Rightarrow>
                                       Inr \<lparr>r_segment = label,
                                            confidence = JFinite c,
                                            reasoning =
                                              (if json_truthy r then the r
                                               else JString ''No reasoning provided''),
                                            characteristics =
                                              (case ch of Some (JArray items) \<Rightarrow> items
                                               | _ \<Rightarrow> [])\<rparr>
                                   | (Inl e, _) \<Rightarrow> Inl e
                                   | (_, Inl e) \<Rightarrow> Inl e)
                            | Inr _ \<Rightarrow> Inl (JsError ''Invalid confidence score''))
                         else Inl (JsError ''Invalid segment'')
                     | _ \<Rightarrow> Inl (JsError ''Invalid segment'')))))"

definition fallback_result :: segmentation_result where
  "fallback_result =
     \<lparr>r_segment = ''REGULAR_CUSTOMER'', confidence = JFinite 0.5,
      reasoning = JString ''Failed to parse LLM response, assigned default segment'',
      characteristics = [JString ''parsing_error'']\<rparr>"

definition parseSegmentationResponse ::
  "(string \<Rightarrow> json option) \<Rightarrow> string \<Rightarrow> store \<Rightarrow> segmentation_result \<times> store" where
  "parseSegmentationResponse JSON_parse response s =
     (case parse_and_validate JSON_parse response of
        Inr result \<Rightarrow> (result, s)
      | Inl e \<Rightarrow>
          (fallback_result, logger Error ''Failed to parse LLM segmentation response'' s))"

text \<open>
  \<^verbatim>\<open>LLMService.segmentCustomer\<close>. \<open>classify\<close> stands for the three storage-free steps
  between the history and the raw answer (\<^verbatim>\<open>formatCustomerDataForAnalysis\<close>,
  \<^verbatim>\<open>createSegmentationPrompt\<close>, \<^verbatim>\<open>callAnthropicAPI\<close>), \<open>Inl\<close> where the call
  throws; \<open>now\<close> is the time of the history read, \<open>later\<close> that of the label update.
\<close>

definition LLMService_segmentCustomer ::
  "(history \<Rightarrow> error + string) \<Rightarrow> (string \<Rightarrow> json option) \<Rightarrow> int \<Rightarrow> int \<Rightarrow> js_number
     \<Rightarrow> store \<Rightarrow> (error + segmentation_result) \<times> store" where
  "LLMService_segmentCustomer classify JSON_parse now later customerId s =
     (case getCustomerConversationHistory now customerId
             (logger Info ''Starting customer segmentation'' s) of
        (Inl e, s1) \<Rightarrow>
          (Inl (LLMServiceError ''Failed to segment customer'' (Some e)),
           logger Error ''Customer segmentation failed'' s1)
      | (Inr customerData, s1) \<Rightarrow>
          (case classify customerData of
             Inl e \<Rightarrow>
               (Inl (LLMServiceError ''Failed to segment customer'' (Some e)),
                logger Error ''Customer segmentation failed'' s1)
           | Inr response \<Rightarrow>
               (case parseSegmentationResponse JSON_parse response s1 of
                  (segmentationResult, s2) \<Rightarrow>
                    (case updateCustomerSegment later customerId
                            (r_segment segmentationResult) s2 of
                       (Inl e, s3) \<Rightarrow>
                         (Inl (LLMServiceError ''Failed to segment customer'' (Some e)),
                          logger Error ''Customer segmentation failed'' s3)
                     | (Inr _, s3) \<Rightarrow>
                         (Inr segmentationResult,
                          logger Info ''Customer segmentation completed'' s3)))))"

section \<open>WebhookController\<close>

record http_response =
  status_code :: nat
  success :: bool
  data :: "segmentation_result option"
  error_text :: "string option"

text \<open>
  \<^verbatim>\<open>WebhookController.segmentCustomer\<close>. \<open>params\<close> is \<^verbatim>\<open>req.params\<close>; the schema
  \<^verbatim>\<open>z.string().transform(Number)\<close> rejects a missing parameter and hands every string
  to \<open>Number_js\<close>, the built-in conversion, whatever it returns.
\<close>

definition WebhookController_segmentCustomer ::
  "(string \<Rightarrow> js_number) \<Rightarrow> (history \<Rightarrow> error + string) \<Rightarrow> (string \<Rightarrow> json option)
     \<Rightarrow> int \<Rightarrow> int \<Rightarrow> (string \<times> string) list \<Rightarrow> store \<Rightarrow> http_response \<times> store" where
  "WebhookController_segmentCustomer Number_js classify JSON_parse now later params s =
     (case map_of params ''customerId'' of
        None \<Rightarrow>
          (\<lparr>status_code = 400, success = False, data = None,
            error_text = Some ''Invalid customer ID''\<rparr>, s)
      | Some raw \<Rightarrow>
          (case LLMService_segmentCustomer classify JSON_parse now later (Number_js raw) s of
             (Inr result, s1) \<Rightarrow>
               (\<lparr>status_code = 200, success = True, data = Some result, error_text = None\<rparr>,
                s1)
           | (Inl e, s1) \<Rightarrow>
               (\<lparr>status_code = 500, success = False, data = None,
                 error_text = Some ''Failed to segment customer''\<rparr>,
                logger Error ''Manual segmentation failed'' s1)))"


section \<open>Deliveries in flight\<close>

text \<open>
  The server handles every webhook as a task of its own, and a task gives way at each
  \<^verbatim>\<open>await\<close>: the statements of two calls of \<^verbatim>\<open>handleIncomingMessage\<close> interleave. Here
  a delivery advances one statement at a time, in the order of the source: BEGIN with the
  check of the phone number, the two statements of \<^verbatim>\<open>findOrCreateCustomer\<close>, the three
  of \<^verbatim>\<open>findOrCreateChatSession\<close>, the INSERT of \<^verbatim>\<open>saveMessage\<close>, the two UPDATEs of the
  statistics, COMMIT.

  The source asks for no isolation level and takes no lock, so the transactions run at
  PostgreSQL's default, READ COMMITTED. A statement sees the rows committed when it starts
  and the writes of its own transaction, never another's uncommitted writes. A write to a
  row that another transaction in flight has written waits for that transaction to end,
  and so does an INSERT of a unique key that another transaction in flight has inserted.
  The UPDATE that closes sessions picks its rows when it starts; when it had to wait it
  checks its WHERE clause again on each picked row as that row is by then, and rows
  committed since it started are not among the picked. Sequences and log lines take effect
  at once.
\<close>

text \<open>
  The writes a transaction has made and not yet committed. Rows are addressed by their
  primary key, as a row lock is.
\<close>

datatype db_write =
    InsertCustomer customer
  | InsertSession chat_session
  | InsertMessage message
  | CloseSessions "int list" int
  | BumpCustomer int int
  | BumpSession int int

fun apply_write :: "db_write \<Rightarrow> store \<Rightarrow> store" where
  "apply_write (InsertCustomer row) s = s\<lparr>customers := customers s @ [row]\<rparr>"
| "apply_write (InsertSession row) s = s\<lparr>chat_sessions := chat_sessions s @ [row]\<rparr>"
| "apply_write (InsertMessage row) s = s\<lparr>messages := messages s @ [row]\<rparr>"
| "apply_write (CloseSessions ids now) s =
     s\<lparr>chat_sessions :=
         map (\<lambda>r. if s_id r \<in> set ids
                  then r\<lparr>is_active := False, session_end := Some now, s_updated_at := now\<rparr>
                  else r) (chat_sessions s)\<rparr>"
| "apply_write (BumpCustomer cid now) s = updateCustomerStats now cid s"
| "apply_write (BumpSession sid now) s = updateSessionStats now sid s"

text \<open>What a statement sees: the committed rows with the transaction's own writes on top.\<close>

definition visible :: "store \<Rightarrow> db_write list \<Rightarrow> store" where
  "visible db ws = foldl (\<lambda>s w. apply_write w s) db ws"

text \<open>The rows a transaction has locked by writing them, and the unique keys it has inserted.\<close>

fun written_sessions :: "db_write \<Rightarrow> int list" where
  "written_sessions (CloseSessions ids now) = ids"
| "written_sessions (BumpSession sid now) = [sid]"
| "written_sessions _ = []"

fun written_customers :: "db_write \<Rightarrow> int list" where
  "written_customers (BumpCustomer cid now) = [cid]"
| "written_customers _ = []"

fun inserted_phone_numbers :: "db_write \<Rightarrow> string list" where
  "inserted_phone_numbers (InsertCustomer row) = [phone_number row]"
| "inserted_phone_numbers _ = []"

fun inserted_message_ids :: "db_write \<Rightarrow> string list" where
  "inserted_message_ids (InsertMessage row) = [waha_message_id row]"
| "inserted_message_ids _ = []"

text \<open>
  The statement a delivery is about to run, with the local variables of the callback:
  the customer and the session once they are known, and the rows the closing UPDATE
  picked when it started.
\<close>

datatype stage =
    Begin
  | SelectCustomer
  | InsertCustomerRow
  | SelectSession customer
  | CloseStart customer
  | CloseFinish customer "int list"
  | InsertSessionRow customer
  | InsertMessageRow customer chat_session
  | UpdateCustomerStats customer chat_session
  | UpdateSessionStats customer chat_session
  | Commit
  | Returned "error + unit"

text \<open>
  A delivery: \<^verbatim>\<open>NOW()\<close> of its transaction, its payload, its next statement and its
  uncommitted writes. The server: the database and the deliveries received so far.
\<close>

record delivery =
  d_now :: int
  d_payload :: payload
  d_stage :: stage
  d_writes :: "db_write list"

record server =
  database :: store
  deliveries :: "delivery list"

text \<open>
  The start of \<^verbatim>\<open>handleIncomingMessage\<close>, up to the call of \<^verbatim>\<open>transaction\<close>: an echo of
  the business returns at once.
\<close>

definition deliver :: "int \<Rightarrow> payload \<Rightarrow> server \<Rightarrow> server" where
  "deliver now p srv =
     (let db = logger Info ''Processing incoming message'' (database srv) in
      if fromMe p = Some True
      then srv\<lparr>database := logger Debug ''Skipping message from self'' db,
               deliveries := deliveries srv
                 @ [\<lparr>d_now = now, d_payload = p, d_stage = Returned (Inr ()), d_writes = []\<rparr>]\<rparr>
      else srv\<lparr>database := db,
               deliveries := deliveries srv
                 @ [\<lparr>d_now = now, d_payload = p, d_stage = Begin, d_writes = []\<rparr>]\<rparr>)"

text \<open>The uncommitted writes of the other deliveries.\<close>

definition held_by_others :: "nat \<Rightarrow> server \<Rightarrow> db_write list" where
  "held_by_others i srv =
     concat (map d_writes (take i (deliveries srv) @ drop (Suc i) (deliveries srv)))"

text \<open>
  A statement that succeeds leaves the sequences and the log in the database, adds its
  writes to the transaction and moves on; one that throws makes \<^verbatim>\<open>transaction\<close> roll
  back, which drops the writes, and \<^verbatim>\<open>handleIncomingMessage\<close> rethrow.
\<close>

definition proceed :: "nat \<Rightarrow> server \<Rightarrow> store \<Rightarrow> db_write list \<Rightarrow> stage \<Rightarrow> server option" where
  "proceed i srv db ws next_stage =
     Some (srv\<lparr>database := db,
               deliveries := (deliveries srv)
                 [i := (deliveries srv ! i)\<lparr>d_writes := d_writes (deliveries srv ! i) @ ws,
                                           d_stage := next_stage\<rparr>]\<rparr>)"

definition rollback :: "nat \<Rightarrow> server \<Rightarrow> store \<Rightarrow> error \<Rightarrow> server option" where
  "rollback i srv db e =
     Some (srv\<lparr>database :=
                 logger Error ''Failed to handle incoming message''
                   (logger Error ''Transaction failed and was rolled back'' db),
               deliveries := (deliveries srv)
                 [i := (deliveries srv ! i)
                    \<lparr>d_writes := [],
                     d_stage := Returned
                       (Inl (WhatsAppServiceError ''Failed to process incoming message''
                               (Some (DatabaseServiceError ''Transaction failed'' e))))\<rparr>]\<rparr>)"

text \<open>One statement of delivery \<open>i\<close>; \<open>None\<close> where it has to wait or has returned.\<close>

definition step :: "nat \<Rightarrow> server \<Rightarrow> server option" where
  "step i srv =
     (if length (deliveries srv) \<le> i then None
      else
        (let d = deliveries srv ! i; db = database srv; now = d_now d; p = d_payload d;
             phoneNumber = extractPhoneNumber (p_from p);
             seen = visible db (d_writes d);
             held = held_by_others i srv
         in case d_stage d of
              Begin \<Rightarrow>
                if phoneNumber = [] \<or> length phoneNumber < 10
                then proceed i srv (logger Warn ''Invalid phone number detected'' db) [] Commit
                else proceed i srv db [] SelectCustomer
            | SelectCustomer \<Rightarrow>
                (case filter (\<lambda>c. phone_number c = phoneNumber) (customers seen) of
                   row # _ \<Rightarrow> proceed i srv db [] (SelectSession row)
                 | [] \<Rightarrow> proceed i srv db [] InsertCustomerRow)
            | InsertCustomerRow \<Rightarrow>
                (let new_id = customers_id_seq db + 1;
                     db1 = db\<lparr>customers_id_seq := new_id\<rparr>;
                     row = \<lparr>c_id = new_id, phone_number = phoneNumber,
                            name = js_or (notifyName p) None,
                            first_message_at = p_timestamp p * 1000,
                            last_message_at = p_timestamp p * 1000,
                            total_messages = 1, segment = None, segment_updated_at = None,
                            c_created_at = now, c_updated_at = now\<rparr>
                 in if phoneNumber \<in> set (map phone_number (customers seen))
                    then rollback i srv db1 (UniqueViolation ''customers_phone_number_key'')
                    else if phoneNumber \<in> set (concat (map inserted_phone_numbers held))
                    then None
                    else proceed i srv (logger Info ''New customer created'' db1)
                           [InsertCustomer row] (SelectSession row))
            | SelectSession customer \<Rightarrow>
                (case sort_key (\<lambda>r. - session_start r)
                        (filter (\<lambda>r. s_customer_id r = c_id customer \<and> is_active r
                                     \<and> session_start r > now - thirty_minutes)
                           (chat_sessions seen)) of
                   row # _ \<Rightarrow> proceed i srv db [] (InsertMessageRow customer row)
                 | [] \<Rightarrow> proceed i srv db [] (CloseStart customer))
            | CloseStart customer \<Rightarrow>
                proceed i srv db []
                  (CloseFinish customer
                     (map s_id (filter (\<lambda>r. s_customer_id r = c_id customer \<and> is_active r)
                                  (chat_sessions seen))))
            | CloseFinish customer targets \<Rightarrow>
                if set targets \<inter> set (concat (map written_sessions held)) \<noteq> {}
                then None
                else proceed i srv db
                       [CloseSessions
                          (filter (\<lambda>sid. \<exists>r \<in> set (chat_sessions seen).
                                      s_id r = sid \<and> s_customer_id r = c_id customer
                                      \<and> is_active r) targets) now]
                       (InsertSessionRow customer)
            | InsertSessionRow customer \<Rightarrow>
                (let new_id = chat_sessions_id_seq db + 1;
                     row = \<lparr>s_id = new_id, s_customer_id = c_id customer,
                            session_start = now, session_end = None, message_count = 0,
                            is_active = True, s_created_at = now, s_updated_at = now\<rparr>
                 in proceed i srv
                      (logger Debug ''New chat session created''
                         (db\<lparr>chat_sessions_id_seq := new_id\<rparr>))
                      [InsertSession row] (InsertMessageRow customer row))
            | InsertMessageRow customer session \<Rightarrow>
                (let new_id = messages_id_seq db + 1;
                     db1 = db\<lparr>messages_id_seq := new_id\<rparr>;
                     row = \<lparr>m_id = new_id, m_customer_id = c_id customer,
                            session_id = s_id session, waha_message_id = p_id p,
                            chat_id = p_from p, from_number = phoneNumber,
                            to_number = (if truthy (p_to p)
                                         then map_option extractPhoneNumber (p_to p)
                                         else None),
                            message_body = js_or (js_or (body p) (caption p)) None,
                            timestamp = p_timestamp p * 1000, is_from_me = fromMe p,
                            status = None, reply_to = js_or (replyTo p) None,
                            m_created_at = now, m_updated_at = now\<rparr>
                 in if p_id p \<in> set (map waha_message_id (messages seen))
                    then rollback i srv db1 (UniqueViolation ''messages_waha_message_id_key'')
                    else if p_id p \<in> set (concat (map inserted_message_ids held))
                    then None
                    else proceed i srv db1 [InsertMessage row]
                           (UpdateCustomerStats customer session))
            | UpdateCustomerStats customer session \<Rightarrow>
                if c_id customer \<in> set (concat (map written_customers held)) then None
                else proceed i srv db [BumpCustomer (c_id customer) now]
                       (UpdateSessionStats customer session)
            | UpdateSessionStats customer session \<Rightarrow>
                if s_id session \<in> set (concat (map written_sessions held)) then None
                else proceed i srv db [BumpSession (s_id session) now] Commit
            | Commit \<Rightarrow>
                Some (srv\<lparr>database := logger Info ''Message processed successfully'' seen,
                          deliveries := (deliveries srv)
                            [i := d\<lparr>d_writes := [], d_stage := Returned (Inr ())\<rparr>]\<rparr>)
            | Returned result \<Rightarrow> None))"

text \<open>A schedule names, step by step, the delivery that runs its next statement.\<close>

fun run :: "nat list \<Rightarrow> server \<Rightarrow> server option" where
  "run [] srv = Some srv"
| "run (i # schedule) srv = (case step i srv of None \<Rightarrow> None | Some srv' \<Rightarrow> run schedule srv')"

definition idle :: "store \<Rightarrow> server" where
  "idle db = \<lparr>database = db, deliveries = []\<rparr>"

text \<open>Delivery \<open>i\<close> run until it returns or has to wait, for at most \<open>n\<close> statements.\<close>

fun finish :: "nat \<Rightarrow> nat \<Rightarrow> server \<Rightarrow> server" where
  "finish 0 i srv = srv"
| "finish (Suc n) i srv = (case step i srv of None \<Rightarrow> srv | Some srv' \<Rightarrow> finish n i srv')"

section \<open>Vocabulary of the properties\<close>

text \<open>The rows of the three tables, without sequences and log.\<close>

definition rows :: "store \<Rightarrow> customer list \<times> chat_session list \<times> message list" where
  "rows s = (customers s, chat_sessions s, messages s)"

text \<open>No customer owns two active sessions.\<close>

definition one_active_session :: "store \<Rightarrow> bool" where
  "one_active_session s =
     (\<forall>cid \<in> set (map s_customer_id (chat_sessions s)).
        length (filter (\<lambda>r. s_customer_id r = cid \<and> is_active r) (chat_sessions s)) \<le> 1)"

text \<open>Session keys are pairwise different and were all handed out by the sequence.\<close>

definition session_ids_fresh :: "store \<Rightarrow> bool" where
  "session_ids_fresh s =
     (distinct (map s_id (chat_sessions s))
      \<and> (\<forall>r \<in> set (chat_sessions s). s_id r \<le> chat_sessions_id_seq s))"

definition no_business_messages :: "store \<Rightarrow> bool" where
  "no_business_messages s = (\<forall>m \<in> set (messages s). is_from_me m \<noteq> Some True)"

text \<open>
  Average response latency as the specification words it: over the consecutive pairs
  (previous, current) of the messages in timestamp order, the mean elapsed time of the
  pairs in which a customer message follows a business message, in seconds; 0 when there
  is no such pair.
\<close>

definition consecutive_pairs :: "'a list \<Rightarrow> ('a \<times> 'a) list" where
  "consecutive_pairs xs = zip xs (tl xs)"

definition customer_after_business :: "recent_message \<times> recent_message \<Rightarrow> bool" where
  "customer_after_business pc = (isFromMe (fst pc) = Some True \<and> isFromMe (snd pc) \<noteq> Some True)"

definition elapsed :: "recent_message \<times> recent_message \<Rightarrow> int" where
  "elapsed pc = r_timestamp (snd pc) - r_timestamp (fst pc)"

definition mean_response_latency :: "recent_message list \<Rightarrow> real" where
  "mean_response_latency msgs =
     (let pairs = filter customer_after_business
                    (consecutive_pairs (sort_key r_timestamp msgs))
      in if pairs = [] then 0
         else real_of_int (sum_list (map elapsed pairs)) / real (length pairs) / 1000)"

text \<open>
  What the specification asks of a classifier answer: a JSON object whose segment is one
  of the seven labels and whose confidence is a number between 0 and 1.
\<close>

definition acceptable :: "json \<Rightarrow> bool" where
  "acceptable v =
     (case v of
        JObject kvs \<Rightarrow>
          (case map_of kvs ''segment'' of
             Some (JString label) \<Rightarrow> label \<in> set validSegments
           | _ \<Rightarrow> False)
          \<and> (case map_of kvs ''confidence'' of
               Some (JNumber (JFinite c)) \<Rightarrow> 0 \<le> c \<and> c \<le> 1
             | _ \<Rightarrow> False)
      | _ \<Rightarrow> False)"

definition extract_object :: "(string \<Rightarrow> json option) \<Rightarrow> string \<Rightarrow> json option" where
  "extract_object JSON_parse response =
     (case match_braces response of None \<Rightarrow> None | Some found \<Rightarrow> JSON_parse found)"

text \<open>Sample inputs: a customer's text message, and business and customer digest entries.\<close>

definition sample_message :: "string \<Rightarrow> int \<Rightarrow> payload" where
  "sample_message mid t =
     \<lparr>p_id = mid, p_timestamp = t, p_from = ''6281234567890@c.us'', fromMe = Some False,
      p_to = None, body = Some ''halo'', caption = None, notifyName = Some ''Budi'',
      replyTo = None\<rparr>"

definition business :: "int \<Rightarrow> recent_message" where
  "business t = \<lparr>messageBody = ''ok'', r_timestamp = t, isFromMe = Some True\<rparr>"

definition from_customer :: "int \<Rightarrow> recent_message" where
  "from_customer t = \<lparr>messageBody = ''halo'', r_timestamp = t, isFromMe = Some False\<rparr>"

section \<open>Verified properties\<close>

subsection \<open>Store bookkeeping\<close>

lemma logger_fields [simp]:
  "customers (logger l m s) = customers s"
  "chat_sessions (logger l m s) = chat_sessions s"
  "messages (logger l m s) = messages s"
  "customers_id_seq (logger l m s) = customers_id_seq s"
  "chat_sessions_id_seq (logger l m s) = chat_sessions_id_seq s"
  "messages_id_seq (logger l m s) = messages_id_seq s"
  "logs (logger l m s) = logs s @ [(l, m)]"
  by (simp_all add: logger_def)

lemma transaction_Inl:
  "fst (callback s) = Inl e \<Longrightarrow>
   fst (transaction callback s) = Inl (DatabaseServiceError ''Transaction failed'' e)
   \<and> rows (snd (transaction callback s)) = rows s"
  by (cases "callback s") (simp add: transaction_def rows_def)

lemma transaction_Inr:
  "fst (callback s) = Inr r \<Longrightarrow> transaction callback s = (Inr r, snd (callback s))"
  by (cases "callback s") (simp add: transaction_def)

lemma findOrCreateCustomer_ok:
  "\<exists>c. fst (findOrCreateCustomer now ph p s) = Inr c"
  by (auto simp: findOrCreateCustomer_def Let_def filter_empty_conv split: list.splits)

lemma findOrCreateCustomer_messages [simp]:
  "messages (snd (findOrCreateCustomer now ph p s)) = messages s"
  by (auto simp: findOrCreateCustomer_def Let_def split: list.splits)

lemma findOrCreateCustomer_sessions [simp]:
  "chat_sessions (snd (findOrCreateCustomer now ph p s)) = chat_sessions s"
  by (auto simp: findOrCreateCustomer_def Let_def split: list.splits)

lemma findOrCreateChatSession_messages [simp]:
  "messages (snd (findOrCreateChatSession now cid s)) = messages s"
  by (auto simp: findOrCreateChatSession_def Let_def split: list.splits)

lemma findOrCreateChatSession_customers [simp]:
  "customers (snd (findOrCreateChatSession now cid s)) = customers s"
  by (auto simp: findOrCreateChatSession_def Let_def split: list.splits)

subsection \<open>A first delivery, evaluated\<close>

lemmas ingest_defs =
  handleIncomingMessage_def transaction_def handleIncomingMessage_tx_def
  findOrCreateCustomer_def findOrCreateChatSession_def saveMessage_def
  updateCustomerStats_def updateSessionStats_def extractPhoneNumber_def
  sample_message_def empty_store_def logger_def js_or_def thirty_minutes_def Let_def

lemma sample_phone [simp]:
  "extractPhoneNumber (p_from (sample_message mid t)) = ''6281234567890''"
  by (simp add: sample_message_def extractPhoneNumber_def)

lemma first_delivery:
  "handleIncomingMessage now (sample_message mid t) empty_store =
     (Inr (),
      \<lparr>customers = [\<lparr>c_id = 1, phone_number = ''6281234567890'', name = Some ''Budi'',
                      first_message_at = t * 1000, last_message_at = now,
                      total_messages = 2, segment = None, segment_updated_at = None,
                      c_created_at = now, c_updated_at = now\<rparr>],
       chat_sessions = [\<lparr>s_id = 1, s_customer_id = 1, session_start = now,
                      session_end = None, message_count = 1, is_active = True,
                      s_created_at = now, s_updated_at = now\<rparr>],
       messages = [\<lparr>m_id = 1, m_customer_id = 1, session_id = 1,
                 waha_message_id = mid, chat_id = ''6281234567890@c.us'',
                 from_number = ''6281234567890'', to_number = None,
                 message_body = Some ''halo'', timestamp = t * 1000,
                 is_from_me = Some False, status = None,
                 reply_to = None,
                 m_created_at = now, m_updated_at = now\<rparr>],
       customers_id_seq = 1, chat_sessions_id_seq = 1, messages_id_seq = 1,
       logs = [(Info, ''Processing incoming message''), (Info, ''New customer created''),
               (Debug, ''New chat session created''), (Info, ''Message processed successfully'')]\<rparr>)"
  by (simp add: ingest_defs)

subsection \<open>Redelivery\<close>

lemma saveMessage_duplicate:
  "p_id p \<in> set (map waha_message_id (messages s)) \<Longrightarrow>
   fst (saveMessage now cid sid p s) = Inl (UniqueViolation ''messages_waha_message_id_key'')"
  by (simp add: saveMessage_def Let_def)

lemma tx_duplicate:
  assumes "p_id p \<in> set (map waha_message_id (messages s))"
    and "10 \<le> length (extractPhoneNumber (p_from p))"
  shows "fst (handleIncomingMessage_tx now p s)
         = Inl (UniqueViolation ''messages_waha_message_id_key'')"
proof -
  obtain c where c: "fst (findOrCreateCustomer now (extractPhoneNumber (p_from p)) p s) = Inr c"
    using findOrCreateCustomer_ok by blast
  define sa where "sa = snd (findOrCreateCustomer now (extractPhoneNumber (p_from p)) p s)"
  define sb where "sb = snd (findOrCreateChatSession now (c_id c) sa)"
  have m: "p_id p \<in> set (map waha_message_id (messages sb))"
    using assms(1) by (simp add: sa_def sb_def)
  have "fst (saveMessage now (c_id c) (s_id (fst (findOrCreateChatSession now (c_id c) sa))) p sb)
        = Inl (UniqueViolation ''messages_waha_message_id_key'')"
    using m by (rule saveMessage_duplicate)
  then show ?thesis
    using c assms(2)
    by (auto simp: handleIncomingMessage_tx_def Let_def sa_def sb_def
             split: prod.splits sum.splits)
qed

text \<open>
  C2. When the store already holds a Message row with the external id of an incoming
  event, processing the event changes no row of any table, so the customer's
  total_messages and the session's message_count stay as they were; when the event is
  not skipped (it is not from the business and its phone number has at least 10
  characters), the insert hits the unique constraint, the transaction is rolled back and
  the call raises.
\<close>

theorem redelivery_rolls_back:
  assumes "p_id p \<in> set (map waha_message_id (messages s))"
  shows "rows (snd (handleIncomingMessage now p s)) = rows s
     \<and> (fromMe p \<noteq> Some True \<and> 10 \<le> length (extractPhoneNumber (p_from p)) \<longrightarrow>
        fst (handleIncomingMessage now p s) =
           Inl (WhatsAppServiceError ''Failed to process incoming message''
                 (Some (DatabaseServiceError ''Transaction failed''
                    (UniqueViolation ''messages_waha_message_id_key'')))))"
proof (cases "fromMe p \<noteq> Some True \<and> 10 \<le> length (extractPhoneNumber (p_from p))")
  case True
  let ?s0 = "logger Info ''Processing incoming message'' s"
  have "fst (handleIncomingMessage_tx now p ?s0)
        = Inl (UniqueViolation ''messages_waha_message_id_key'')"
    using assms True by (intro tx_duplicate) simp_all
  from transaction_Inl[of "handleIncomingMessage_tx now p" ?s0, OF this] True show ?thesis
    by (cases "transaction (handleIncomingMessage_tx now p) ?s0")
       (simp add: handleIncomingMessage_def Let_def rows_def)
next
  case False
  then show ?thesis
    by (auto simp: handleIncomingMessage_def Let_def rows_def handleIncomingMessage_tx_def
          transaction_def)
qed

theorem redelivery_rolls_back_witness:
  "p_id (sample_message ''m1'' 1)
     \<in> set (map waha_message_id
            (messages (snd (handleIncomingMessage 1000 (sample_message ''m1'' 1) empty_store))))
   \<and> rows (snd (handleIncomingMessage 2000 (sample_message ''m1'' 1)
                (snd (handleIncomingMessage 1000 (sample_message ''m1'' 1) empty_store))))
       = rows (snd (handleIncomingMessage 1000 (sample_message ''m1'' 1) empty_store))
   \<and> fst (handleIncomingMessage 2000 (sample_message ''m1'' 1)
                (snd (handleIncomingMessage 1000 (sample_message ''m1'' 1) empty_store)))
       = Inl (WhatsAppServiceError ''Failed to process incoming message''
                 (Some (DatabaseServiceError ''Transaction failed''
                    (UniqueViolation ''messages_waha_message_id_key''))))"
proof -
  have h: "p_id (sample_message ''m1'' 1)
     \<in> set (map waha_message_id
            (messages (snd (handleIncomingMessage 1000 (sample_message ''m1'' 1) empty_store))))"
    by (simp add: first_delivery) (simp add: sample_message_def)
  have v: "fromMe (sample_message ''m1'' 1) \<noteq> Some True \<and> 10 \<le> length (extractPhoneNumber (p_from (sample_message ''m1'' 1)))"
    by (simp) (simp add: sample_message_def)
  from redelivery_rolls_back[OF h, of 2000] v h show ?thesis by blast
qed

subsection \<open>Average response latency\<close>

lemma elapsed_pair [simp]: "elapsed (a, b) = r_timestamp b - r_timestamp a"
  by (simp add: elapsed_def)

lemma customer_after_business_pair [simp]:
  "customer_after_business (a, b) = (isFromMe a = Some True \<and> isFromMe b \<noteq> Some True)"
  by (simp add: customer_after_business_def)

lemma drop_consecutive_pairs:
  assumes "1 \<le> i" "i < length xs"
  shows "drop (i - 1) (consecutive_pairs xs) = (xs ! (i - 1), xs ! i) # drop i (consecutive_pairs xs)"
proof -
  have len: "i - 1 < length (consecutive_pairs xs)"
    using assms by (simp add: consecutive_pairs_def)
  have "consecutive_pairs xs ! (i - 1) = (xs ! (i - 1), xs ! i)"
    using assms by (simp add: consecutive_pairs_def nth_tl)
  with Cons_nth_drop_Suc[OF len] assms show ?thesis by simp
qed

lemma response_loop_pairs:
  "1 \<le> i \<Longrightarrow>
   response_loop xs i t c =
     (t + sum_list (map elapsed (filter customer_after_business (drop (i - 1) (consecutive_pairs xs)))),
      c + length (filter customer_after_business (drop (i - 1) (consecutive_pairs xs))))"
proof (induction xs i t c rule: response_loop.induct)
  case (1 xs i t c)
  show ?case
  proof (cases "i < length xs")
    case True
    note d = drop_consecutive_pairs[OF "1.prems" True]
    show ?thesis
    proof (cases "isFromMe (xs ! i) \<noteq> Some True \<and> isFromMe (xs ! (i - 1)) = Some True")
      case yes: True
      have "response_loop xs i t c = response_loop xs (i + 1) (t + (r_timestamp (xs ! i) - r_timestamp (xs ! (i - 1)))) (c + 1)"
        using True yes by (subst response_loop.simps) simp
      also have "\<dots> = (t + (r_timestamp (xs ! i) - r_timestamp (xs ! (i - 1)))
            + sum_list (map elapsed (filter customer_after_business (drop i (consecutive_pairs xs)))),
          c + 1 + length (filter customer_after_business (drop i (consecutive_pairs xs))))"
        using "1.IH"(1)[OF True yes] by simp
      finally have eq: "response_loop xs i t c = (t + (r_timestamp (xs ! i) - r_timestamp (xs ! (i - 1)))
            + sum_list (map elapsed (filter customer_after_business (drop i (consecutive_pairs xs)))),
          c + 1 + length (filter customer_after_business (drop i (consecutive_pairs xs))))" .
      have "customer_after_business (xs ! (i - 1), xs ! i)"
        using yes by simp
      then have "filter customer_after_business (drop (i - 1) (consecutive_pairs xs))
          = (xs ! (i - 1), xs ! i) # filter customer_after_business (drop i (consecutive_pairs xs))"
        unfolding d by simp
      then show ?thesis
        unfolding eq by simp
    next
      case no: False
      have "response_loop xs i t c = response_loop xs (i + 1) t c"
        using True no by (subst response_loop.simps) auto
      also have "\<dots> = (t + sum_list (map elapsed (filter customer_after_business (drop i (consecutive_pairs xs)))),
          c + length (filter customer_after_business (drop i (consecutive_pairs xs))))"
        using "1.IH"(2)[OF True no] by simp
      finally have eq: "response_loop xs i t c = (t + sum_list (map elapsed (filter customer_after_business (drop i (consecutive_pairs xs)))),
          c + length (filter customer_after_business (drop i (consecutive_pairs xs))))" .
      have "\<not> customer_after_business (xs ! (i - 1), xs ! i)"
        using no by auto
      then have "filter customer_after_business (drop (i - 1) (consecutive_pairs xs))
          = filter customer_after_business (drop i (consecutive_pairs xs))"
        unfolding d by simp
      then show ?thesis
        unfolding eq by simp
    qed
  next
    case False
    then have "drop (i - 1) (consecutive_pairs xs) = []"
      using "1.prems" by (simp add: consecutive_pairs_def)
    with False show ?thesis
      by (subst response_loop.simps) simp
  qed
qed

lemma calculateAverageResponseTime_mean:
  "calculateAverageResponseTime msgs = mean_response_latency msgs"
proof (cases "length msgs < 2")
  case True
  then have "consecutive_pairs (sort_key r_timestamp msgs) = []"
    by (cases "sort_key r_timestamp msgs"; cases "tl (sort_key r_timestamp msgs)")
       (auto simp: consecutive_pairs_def dest: arg_cong[where f=length])
  with True show ?thesis
    by (simp add: calculateAverageResponseTime_def mean_response_latency_def)
next
  case False
  then show ?thesis
    by (simp add: calculateAverageResponseTime_def mean_response_latency_def
        response_loop_pairs Let_def)
qed

text \<open>
  C5. The average response latency computed by the loop is the mean elapsed time, in
  seconds, over the consecutive pairs in timestamp order in which a customer message
  follows a business message (0 when no pair qualifies); fewer than two messages give 0;
  for a business message at t0, a customer message 30 s later, a business message at t1
  (not before the first answer) and a customer message 90 s later, the result is 60.
\<close>

theorem average_response_latency:
  "calculateAverageResponseTime msgs = mean_response_latency msgs
   \<and> (length msgs < 2 \<longrightarrow> calculateAverageResponseTime msgs = 0)
   \<and> (t0 + 30000 \<le> t1 \<longrightarrow>
        calculateAverageResponseTime
          [business t0, from_customer (t0 + 30000), business t1, from_customer (t1 + 90000)]
        = 60)"
proof (intro conjI impI)
  show "calculateAverageResponseTime msgs = mean_response_latency msgs"
    by (rule calculateAverageResponseTime_mean)
  show "calculateAverageResponseTime msgs = 0" if "length msgs < 2"
    using that by (simp add: calculateAverageResponseTime_def)
  show "calculateAverageResponseTime
          [business t0, from_customer (t0 + 30000), business t1, from_customer (t1 + 90000)]
        = 60" if "t0 + 30000 \<le> t1"
    using that
    by (simp add: calculateAverageResponseTime_mean mean_response_latency_def
          consecutive_pairs_def business_def from_customer_def)
qed

theorem average_response_latency_witness:
  "length ([] :: recent_message list) < 2
   \<and> calculateAverageResponseTime [] = 0
   \<and> (0::int) + 30000 \<le> 100000
   \<and> calculateAverageResponseTime
        [business 0, from_customer (0 + 30000), business 100000,
         from_customer (100000 + 90000)] = 60
   \<and> mean_response_latency
        [business 0, from_customer (0 + 30000), business 100000,
         from_customer (100000 + 90000)] = 60"
  using average_response_latency[of "[]" 0 100000]
    average_response_latency[of "[business 0, from_customer (0 + 30000), business 100000,
         from_customer (100000 + 90000)]" 0 100000]
  by simp

subsection \<open>Session invariants\<close>

lemma one_active_session_all:
  "one_active_session s \<longleftrightarrow>
     (\<forall>cid. length (filter (\<lambda>r. s_customer_id r = cid \<and> is_active r) (chat_sessions s)) \<le> 1)"
proof
  assume a: "one_active_session s"
  show "\<forall>cid. length (filter (\<lambda>r. s_customer_id r = cid \<and> is_active r) (chat_sessions s)) \<le> 1"
  proof
    fix cid
    show "length (filter (\<lambda>r. s_customer_id r = cid \<and> is_active r) (chat_sessions s)) \<le> 1"
    proof (cases "cid \<in> set (map s_customer_id (chat_sessions s))")
      case True
      with a show ?thesis by (auto simp: one_active_session_def)
    next
      case False
      then have "filter (\<lambda>r. s_customer_id r = cid \<and> is_active r) (chat_sessions s) = []"
        by (auto simp: filter_empty_conv)
      then show ?thesis by simp
    qed
  qed
next
  assume "\<forall>cid. length (filter (\<lambda>r. s_customer_id r = cid \<and> is_active r) (chat_sessions s)) \<le> 1"
  then show "one_active_session s" by (simp add: one_active_session_def)
qed

lemma filter_closed:
  "filter (\<lambda>r. s_customer_id r = cid' \<and> is_active r)
     (map (\<lambda>r. if s_customer_id r = cid \<and> is_active r
               then r\<lparr>is_active := False, session_end := Some now, s_updated_at := now\<rparr>
               else r) xs)
   = (if cid' = cid then [] else filter (\<lambda>r. s_customer_id r = cid' \<and> is_active r) xs)"
  by (induction xs) auto

lemma closed_ids:
  "map s_id (map (\<lambda>r. if s_customer_id r = cid \<and> is_active r
               then r\<lparr>is_active := False, session_end := Some now, s_updated_at := now\<rparr>
               else r) xs) = map s_id xs"
  by (induction xs) auto

lemma findOrCreateChatSession_seq:
  "chat_sessions_id_seq s \<le> chat_sessions_id_seq (snd (findOrCreateChatSession now cid s))"
  by (auto simp: findOrCreateChatSession_def Let_def split: list.splits)

lemma bump_filter:
  "filter (\<lambda>r. s_customer_id r = c \<and> is_active r)
     (map (\<lambda>r. if s_id r = sid then r\<lparr>message_count := message_count r + 1, s_updated_at := now\<rparr> else r) xs)
   = map (\<lambda>r. if s_id r = sid then r\<lparr>message_count := message_count r + 1, s_updated_at := now\<rparr> else r)
       (filter (\<lambda>r. s_customer_id r = c \<and> is_active r) xs)"
  by (induction xs) auto

lemma bump_ids:
  "map s_id (map (\<lambda>r. if s_id r = sid then r\<lparr>message_count := message_count r + 1, s_updated_at := now\<rparr> else r) xs)
   = map s_id xs"
  by (induction xs) auto

lemma findOrCreateCustomer_seq [simp]:
  "chat_sessions_id_seq (snd (findOrCreateCustomer now ph p s)) = chat_sessions_id_seq s"
  by (auto simp: findOrCreateCustomer_def Let_def split: list.splits)

lemma saveMessage_sessions [simp]:
  "chat_sessions (snd (saveMessage now cid sid p s)) = chat_sessions s"
  "chat_sessions_id_seq (snd (saveMessage now cid sid p s)) = chat_sessions_id_seq s"
  by (auto simp: saveMessage_def Let_def)

lemma updateCustomerStats_sessions [simp]:
  "chat_sessions (updateCustomerStats now cid s) = chat_sessions s"
  "chat_sessions_id_seq (updateCustomerStats now cid s) = chat_sessions_id_seq s"
  "messages (updateCustomerStats now cid s) = messages s"
  by (auto simp: updateCustomerStats_def)

lemma updateSessionStats_fields [simp]:
  "chat_sessions_id_seq (updateSessionStats now sid s) = chat_sessions_id_seq s"
  "messages (updateSessionStats now sid s) = messages s"
  "customers (updateSessionStats now sid s) = customers s"
  by (auto simp: updateSessionStats_def)

lemma findOrCreateChatSession_one_active:
  assumes "one_active_session s"
  shows "one_active_session (snd (findOrCreateChatSession now cid s))"
proof (cases "sort_key (\<lambda>r. - session_start r)
             (filter (\<lambda>r. s_customer_id r = cid \<and> is_active r
                          \<and> session_start r > now - thirty_minutes) (chat_sessions s))")
  case (Cons row rest)
  then show ?thesis using assms by (simp add: findOrCreateChatSession_def)
next
  case Nil
  then have cs: "chat_sessions (snd (findOrCreateChatSession now cid s)) =
      map (\<lambda>r. if s_customer_id r = cid \<and> is_active r
               then r\<lparr>is_active := False, session_end := Some now, s_updated_at := now\<rparr>
               else r) (chat_sessions s)
      @ [\<lparr>s_id = chat_sessions_id_seq s + 1, s_customer_id = cid, session_start = now,
                      session_end = None, message_count = 0, is_active = True,
                      s_created_at = now, s_updated_at = now\<rparr>]"
    by (simp add: findOrCreateChatSession_def Let_def)
  show ?thesis
    using assms unfolding one_active_session_all cs
    by (auto simp: filter_closed)
qed

lemma updateSessionStats_one_active:
  "one_active_session s \<Longrightarrow> one_active_session (updateSessionStats now sid s)"
  unfolding one_active_session_all by (simp add: updateSessionStats_def bump_filter)

lemma findOrCreateChatSession_ids_fresh:
  assumes "session_ids_fresh s"
  shows "session_ids_fresh (snd (findOrCreateChatSession now cid s))"
  using assms
  by (auto simp: findOrCreateChatSession_def Let_def session_ids_fresh_def closed_ids
           simp del: map_map split: list.splits)

lemma updateSessionStats_ids_fresh:
  "session_ids_fresh s \<Longrightarrow> session_ids_fresh (updateSessionStats now sid s)"
  unfolding session_ids_fresh_def
  by (auto simp: updateSessionStats_def bump_ids simp del: map_map)

lemma ingest_preserves:
  assumes cong: "\<And>s s'. chat_sessions s' = chat_sessions s \<Longrightarrow>
                   chat_sessions_id_seq s \<le> chat_sessions_id_seq s' \<Longrightarrow> I s \<Longrightarrow> I s'"
    and find: "\<And>now cid s. I s \<Longrightarrow> I (snd (findOrCreateChatSession now cid s))"
    and bump: "\<And>now sid s. I s \<Longrightarrow> I (updateSessionStats now sid s)"
    and s: "I s"
  shows "I (snd (handleIncomingMessage now p s))"
proof -
  let ?ph = "extractPhoneNumber (p_from p)"
  let ?s0 = "logger Info ''Processing incoming message'' s"
  obtain c where c: "fst (findOrCreateCustomer now ?ph p ?s0) = Inr c"
    using findOrCreateCustomer_ok by blast
  define sa where "sa = snd (findOrCreateCustomer now ?ph p ?s0)"
  define sess where "sess = fst (findOrCreateChatSession now (c_id c) sa)"
  define sb where "sb = snd (findOrCreateChatSession now (c_id c) sa)"
  define sc where "sc = snd (saveMessage now (c_id c) (s_id sess) p sb)"
  define sd where "sd = updateSessionStats now (s_id sess) (updateCustomerStats now (c_id c) sc)"
  have s0: "I ?s0" using s by (rule cong[rotated 2]) simp_all
  have a: "I sa" using s0 by (rule cong[rotated 2]) (simp_all add: sa_def)
  have b: "I sb" unfolding sb_def using a by (rule find)
  have sq: "chat_sessions_id_seq s \<le> chat_sessions_id_seq sb"
    using findOrCreateChatSession_seq[of sa now "c_id c"] by (simp add: sb_def sa_def)
  have cc: "I sc" using b by (rule cong[rotated 2]) (simp_all add: sc_def)
  have "I (updateCustomerStats now (c_id c) sc)"
    using cc by (rule cong[rotated 2]) simp_all
  then have d: "I sd" unfolding sd_def by (rule bump)
  have fld: "findOrCreateCustomer now ?ph p ?s0 = (Inr c, sa)"
    "findOrCreateChatSession now (c_id c) sa = (sess, sb)"
    "saveMessage now (c_id c) (s_id sess) p sb
       = (fst (saveMessage now (c_id c) (s_id sess) p sb), sc)"
    using c by (simp_all add: sa_def sess_def sb_def sc_def prod_eq_iff)
  have sqc: "chat_sessions_id_seq sc = chat_sessions_id_seq sb" by (simp add: sc_def)
  have rb: "I (sc\<lparr>customers := customers s, chat_sessions := chat_sessions s,
                messages := messages s\<rparr>)"
    using s by (rule cong[rotated 2]) (simp_all add: sq sqc)
  have w: "I (logger l m x)" if "I x" for l m x
    using that by (rule cong[rotated 2]) simp_all
  show ?thesis
    unfolding handleIncomingMessage_def handleIncomingMessage_tx_def transaction_def Let_def
    by (subst fld, simp, subst fld, simp, subst fld)
       (auto simp: sd_def[symmetric] sq sqc intro!: w rb s0 s cc d split: sum.splits)
qed

lemma handleIncomingMessage_one_active:
  assumes "one_active_session s"
  shows "one_active_session (snd (handleIncomingMessage now p s))"
proof (rule ingest_preserves[where I = one_active_session])
  show "one_active_session s" by fact
  show "one_active_session s'"
    if "chat_sessions s' = chat_sessions s" "one_active_session s" for s s' :: store
    using that by (simp add: one_active_session_def)
qed (simp_all add: findOrCreateChatSession_one_active updateSessionStats_one_active)

lemma handleIncomingMessage_ids_fresh:
  assumes "session_ids_fresh s"
  shows "session_ids_fresh (snd (handleIncomingMessage now p s))"
proof (rule ingest_preserves[where I = session_ids_fresh])
  show "session_ids_fresh s" by fact
  show "session_ids_fresh s'"
    if "chat_sessions s' = chat_sessions s" "chat_sessions_id_seq s \<le> chat_sessions_id_seq s'"
      "session_ids_fresh s" for s s' :: store
    using that by (fastforce simp: session_ids_fresh_def)
qed (simp_all add: findOrCreateChatSession_ids_fresh updateSessionStats_ids_fresh)

lemma handleMessageStatus_sessions [simp]:
  "chat_sessions (snd (handleMessageStatus now p s)) = chat_sessions s"
  "chat_sessions_id_seq (snd (handleMessageStatus now p s)) = chat_sessions_id_seq s"
  "customers (snd (handleMessageStatus now p s)) = customers s"
  by (simp_all add: handleMessageStatus_def Let_def)

lemma getCustomerConversationHistory_rows [simp]:
  "chat_sessions (snd (getCustomerConversationHistory now cid s)) = chat_sessions s"
  "chat_sessions_id_seq (snd (getCustomerConversationHistory now cid s)) = chat_sessions_id_seq s"
  "messages (snd (getCustomerConversationHistory now cid s)) = messages s"
  "customers (snd (getCustomerConversationHistory now cid s)) = customers s"
  by (auto simp add: getCustomerConversationHistory_def Let_def split: sum.splits list.splits)

lemma updateCustomerSegment_rows [simp]:
  "chat_sessions (snd (updateCustomerSegment now cid seg s)) = chat_sessions s"
  "chat_sessions_id_seq (snd (updateCustomerSegment now cid seg s)) = chat_sessions_id_seq s"
  "messages (snd (updateCustomerSegment now cid seg s)) = messages s"
  by (auto simp add: updateCustomerSegment_def split: sum.splits)

lemma parseSegmentationResponse_rows [simp]:
  "chat_sessions (snd (parseSegmentationResponse jp r s)) = chat_sessions s"
  "chat_sessions_id_seq (snd (parseSegmentationResponse jp r s)) = chat_sessions_id_seq s"
  "messages (snd (parseSegmentationResponse jp r s)) = messages s"
  "customers (snd (parseSegmentationResponse jp r s)) = customers s"
  by (auto simp add: parseSegmentationResponse_def split: sum.splits)

lemma LLMService_segmentCustomer_rows [simp]:
  "chat_sessions (snd (LLMService_segmentCustomer cl jp now later cid s)) = chat_sessions s"
  "chat_sessions_id_seq (snd (LLMService_segmentCustomer cl jp now later cid s)) = chat_sessions_id_seq s"
  "messages (snd (LLMService_segmentCustomer cl jp now later cid s)) = messages s"
proof -
  let ?s0 = "logger Info ''Starting customer segmentation'' s"
  define s1 where "s1 = snd (getCustomerConversationHistory now cid ?s0)"
  have s1: "chat_sessions s1 = chat_sessions s" "chat_sessions_id_seq s1 = chat_sessions_id_seq s"
    "messages s1 = messages s"
    by (simp_all add: s1_def)
  have h: "getCustomerConversationHistory now cid ?s0 = (fst (getCustomerConversationHistory now cid ?s0), s1)"
    by (simp add: s1_def)
  have upd: "updateCustomerSegment later cid seg x = (fst (updateCustomerSegment later cid seg x), snd (updateCustomerSegment later cid seg x))" for seg x
    by simp
  have prs: "parseSegmentationResponse jp r x = (fst (parseSegmentationResponse jp r x), snd (parseSegmentationResponse jp r x))" for r x
    by simp
  show "chat_sessions (snd (LLMService_segmentCustomer cl jp now later cid s)) = chat_sessions s"
    unfolding LLMService_segmentCustomer_def
    by (subst h, simp split: sum.splits prod.splits add: s1)
       (metis s1(1) snd_conv parseSegmentationResponse_rows(1) updateCustomerSegment_rows(1))
  show "chat_sessions_id_seq (snd (LLMService_segmentCustomer cl jp now later cid s)) = chat_sessions_id_seq s"
    unfolding LLMService_segmentCustomer_def
    by (subst h, simp split: sum.splits prod.splits add: s1)
       (metis s1(2) snd_conv parseSegmentationResponse_rows(2) updateCustomerSegment_rows(2))
  show "messages (snd (LLMService_segmentCustomer cl jp now later cid s)) = messages s"
    unfolding LLMService_segmentCustomer_def
    by (subst h, simp split: sum.splits prod.splits add: s1)
       (metis s1(3) snd_conv parseSegmentationResponse_rows(3) updateCustomerSegment_rows(3))
qed

subsection \<open>Overlapping deliveries\<close>

text \<open>
  A delivery that meets no other goes through its statements, eleven at most, and leaves
  the database, log and sequences included, as \<^const>\<open>handleIncomingMessage\<close> does, with the
  same result: run one after the other, deliveries keep the sessions as
  \<^const>\<open>one_active_session\<close> wants them.
\<close>

lemma close_by_key:
  assumes "distinct (map s_id xs)" and "r \<in> set xs"
  shows "(s_id r \<in> s_id ` {x \<in> set xs. s_customer_id x = c \<and> is_active x}
          \<and> (\<exists>x \<in> set xs. s_id x = s_id r \<and> s_customer_id x = c \<and> is_active x))
         \<longleftrightarrow> (s_customer_id r = c \<and> is_active r)"
proof
  assume "s_id r \<in> s_id ` {x \<in> set xs. s_customer_id x = c \<and> is_active x}
          \<and> (\<exists>x \<in> set xs. s_id x = s_id r \<and> s_customer_id x = c \<and> is_active x)"
  then obtain x where x: "x \<in> set xs" "s_id x = s_id r" "s_customer_id x = c \<and> is_active x"
    by blast
  with assms have "x = r" by (meson distinct_map inj_onD)
  with x(3) show "s_customer_id r = c \<and> is_active r" by simp
next
  assume "s_customer_id r = c \<and> is_active r"
  with assms(2) show "s_id r \<in> s_id ` {x \<in> set xs. s_customer_id x = c \<and> is_active x}
          \<and> (\<exists>x \<in> set xs. s_id x = s_id r \<and> s_customer_id x = c \<and> is_active x)"
    by blast
qed

lemma finish_numeral:
  "finish (numeral k) i srv
     = (case step i srv of None \<Rightarrow> srv | Some srv' \<Rightarrow> finish (pred_numeral k) i srv')"
  by (simp add: numeral_eq_Suc)

lemma alone_skip:
  assumes "fromMe p = Some True"
  shows "finish 11 0 (deliver now p (idle s))
         = \<lparr>database = snd (handleIncomingMessage now p s),
            deliveries = [\<lparr>d_now = now, d_payload = p,
                           d_stage = Returned (fst (handleIncomingMessage now p s)),
                           d_writes = []\<rparr>]\<rparr>"
  using assms
  by (simp add: deliver_def idle_def step_def handleIncomingMessage_def Let_def finish_numeral)

lemma alone_invalid:
  assumes "fromMe p \<noteq> Some True" "extractPhoneNumber (p_from p) = [] \<or> length (extractPhoneNumber (p_from p)) < 10"
  shows "finish 11 0 (deliver now p (idle s))
         = \<lparr>database = snd (handleIncomingMessage now p s),
            deliveries = [\<lparr>d_now = now, d_payload = p,
                           d_stage = Returned (fst (handleIncomingMessage now p s)),
                           d_writes = []\<rparr>]\<rparr>"
  using assms
  by (simp add: deliver_def idle_def step_def proceed_def visible_def handleIncomingMessage_def
       handleIncomingMessage_tx_def transaction_def Let_def finish_numeral)

lemmas alone_defs = deliver_def idle_def step_def proceed_def rollback_def held_by_others_def
  visible_def Let_def finish_numeral

lemmas serial_defs = handleIncomingMessage_def handleIncomingMessage_tx_def transaction_def
  findOrCreateCustomer_def findOrCreateChatSession_def saveMessage_def Let_def

lemma alone_old_found:
  assumes "fromMe p \<noteq> Some True"
    and "extractPhoneNumber (p_from p) \<noteq> []" "\<not> length (extractPhoneNumber (p_from p)) < 10"
    and "filter (\<lambda>c. phone_number c = extractPhoneNumber (p_from p)) (customers s) = c # rest"
    and "sort_key (\<lambda>r. - session_start r)
            (filter (\<lambda>r. s_customer_id r = c_id c \<and> is_active r
                         \<and> session_start r > now - thirty_minutes) (chat_sessions s))
         = row # others"
  shows "finish 11 0 (deliver now p (idle s))
         = \<lparr>database = snd (handleIncomingMessage now p s),
            deliveries = [\<lparr>d_now = now, d_payload = p,
                           d_stage = Returned (fst (handleIncomingMessage now p s)),
                           d_writes = []\<rparr>]\<rparr>"
  using assms
  by (simp add: alone_defs) (simp add: serial_defs)

lemma alone_old_opened:
  assumes "fromMe p \<noteq> Some True"
    and "extractPhoneNumber (p_from p) \<noteq> []" "\<not> length (extractPhoneNumber (p_from p)) < 10"
    and "filter (\<lambda>c. phone_number c = extractPhoneNumber (p_from p)) (customers s) = c # rest"
    and "sort_key (\<lambda>r. - session_start r)
            (filter (\<lambda>r. s_customer_id r = c_id c \<and> is_active r
                         \<and> session_start r > now - thirty_minutes) (chat_sessions s))
         = []"
    and "distinct (map s_id (chat_sessions s))"
  shows "finish 11 0 (deliver now p (idle s))
         = \<lparr>database = snd (handleIncomingMessage now p s),
            deliveries = [\<lparr>d_now = now, d_payload = p,
                           d_stage = Returned (fst (handleIncomingMessage now p s)),
                           d_writes = []\<rparr>]\<rparr>"
  using assms(1-5)
  by (simp add: alone_defs) 
     (simp add: serial_defs logger_def updateCustomerStats_def updateSessionStats_def
        close_by_key[OF assms(6)] cong: map_cong)

lemma alone_new_found:
  assumes "fromMe p \<noteq> Some True"
    and "extractPhoneNumber (p_from p) \<noteq> []" "\<not> length (extractPhoneNumber (p_from p)) < 10"
    and "filter (\<lambda>c. phone_number c = extractPhoneNumber (p_from p)) (customers s) = []"
    and "extractPhoneNumber (p_from p) \<notin> phone_number ` set (customers s)"
    and "sort_key (\<lambda>r. - session_start r)
            (filter (\<lambda>r. s_customer_id r = customers_id_seq s + 1 \<and> is_active r
                         \<and> session_start r > now - thirty_minutes) (chat_sessions s))
         = row # others"
  shows "finish 11 0 (deliver now p (idle s))
         = \<lparr>database = snd (handleIncomingMessage now p s),
            deliveries = [\<lparr>d_now = now, d_payload = p,
                           d_stage = Returned (fst (handleIncomingMessage now p s)),
                           d_writes = []\<rparr>]\<rparr>"
  using assms
  by (simp add: alone_defs)
     (simp add: serial_defs logger_def updateCustomerStats_def updateSessionStats_def)

lemma alone_new_opened:
  assumes "fromMe p \<noteq> Some True"
    and "extractPhoneNumber (p_from p) \<noteq> []" "\<not> length (extractPhoneNumber (p_from p)) < 10"
    and "filter (\<lambda>c. phone_number c = extractPhoneNumber (p_from p)) (customers s) = []"
    and "extractPhoneNumber (p_from p) \<notin> phone_number ` set (customers s)"
    and "sort_key (\<lambda>r. - session_start r)
            (filter (\<lambda>r. s_customer_id r = customers_id_seq s + 1 \<and> is_active r
                         \<and> session_start r > now - thirty_minutes) (chat_sessions s))
         = []"
    and "distinct (map s_id (chat_sessions s))"
  shows "finish 11 0 (deliver now p (idle s))
         = \<lparr>database = snd (handleIncomingMessage now p s),
            deliveries = [\<lparr>d_now = now, d_payload = p,
                           d_stage = Returned (fst (handleIncomingMessage now p s)),
                           d_writes = []\<rparr>]\<rparr>"
  using assms(1-6)
  by (simp add: alone_defs)
     (simp add: serial_defs logger_def updateCustomerStats_def updateSessionStats_def
        close_by_key[OF assms(7)] cong: map_cong)

lemma alone_agrees:
  assumes "distinct (map s_id (chat_sessions s))"
  shows "finish 11 0 (deliver now p (idle s))
         = \<lparr>database = snd (handleIncomingMessage now p s),
            deliveries = [\<lparr>d_now = now, d_payload = p,
                           d_stage = Returned (fst (handleIncomingMessage now p s)),
                           d_writes = []\<rparr>]\<rparr>"
proof (cases "fromMe p = Some True")
  case True
  then show ?thesis by (rule alone_skip)
next
  case direction: False
  show ?thesis
  proof (cases "extractPhoneNumber (p_from p) = [] \<or> length (extractPhoneNumber (p_from p)) < 10")
    case True
    show ?thesis by (rule alone_invalid[OF direction True])
  next
    case False
    then have valid: "extractPhoneNumber (p_from p) \<noteq> []"
      "\<not> length (extractPhoneNumber (p_from p)) < 10"
      by simp_all
    show ?thesis
    proof (cases "filter (\<lambda>c. phone_number c = extractPhoneNumber (p_from p)) (customers s)")
      case old: (Cons c rest)
      show ?thesis
      proof (cases "sort_key (\<lambda>r. - session_start r)
                      (filter (\<lambda>r. s_customer_id r = c_id c \<and> is_active r
                                   \<and> session_start r > now - thirty_minutes) (chat_sessions s))")
        case Nil
        show ?thesis by (rule alone_old_opened[OF direction valid old Nil assms])
      next
        case (Cons row others)
        show ?thesis by (rule alone_old_found[OF direction valid old Cons])
      qed
    next
      case new: Nil
      then have unseen: "extractPhoneNumber (p_from p) \<notin> phone_number ` set (customers s)"
        by (auto simp: filter_empty_conv)
      show ?thesis
      proof (cases "sort_key (\<lambda>r. - session_start r)
                      (filter (\<lambda>r. s_customer_id r = customers_id_seq s + 1 \<and> is_active r
                                   \<and> session_start r > now - thirty_minutes) (chat_sessions s))")
        case Nil
        show ?thesis by (rule alone_new_opened[OF direction valid new unseen Nil assms])
      next
        case (Cons row others)
        show ?thesis by (rule alone_new_found[OF direction valid new unseen Cons])
      qed
    qed
  qed
qed

lemma alone_one_active:
  assumes "distinct (map s_id (chat_sessions s))" and "one_active_session s"
  shows "one_active_session (database (finish 11 0 (deliver now p (idle s))))"
  using assms by (simp add: alone_agrees handleIncomingMessage_one_active)

lemmas step_defs = step_def proceed_def rollback_def held_by_others_def visible_def deliver_def
  idle_def extractPhoneNumber_def sample_message_def logger_def js_or_def thirty_minutes_def
  updateCustomerStats_def updateSessionStats_def Let_def

text \<open>
  The customer of the first delivery writes twice more, some 33 minutes later. Once the
  first of the two deliveries has closed session 1, the closing UPDATE of the second, which
  has picked session 1 too, waits for the first to commit.
\<close>

lemma closing_update_waits:
  "run [0, 0, 0, 1, 1, 1, 0, 0, 1, 1]
        (deliver 2000500 (sample_message ''m3'' 2000)
          (deliver 2000000 (sample_message ''m2'' 2000)
            (idle (snd (handleIncomingMessage 0 (sample_message ''m1'' 0) empty_store)))))
   = None"
  by (simp add: first_delivery) (simp add: step_defs)

text \<open>
  C9, evaluated at two deliveries that overlap. Customer 1 has one session, active and
  opened at time 0. Two messages of the customer are delivered 2000 s later, half a second
  apart, and each SELECT finds no session younger than 30 minutes before the other delivery
  has committed. The first delivery closes session 1, opens session 2 and commits. The
  second picked session 1 for its closing UPDATE before that commit: it waits, finds the
  session closed, closes nothing, as session 2 was not there when the UPDATE started, and
  opens session 3. Both calls return without error, the three messages are stored, and
  customer 1 has two active sessions, 2 and 3: the UPDATE that is to keep one active session
  per customer misses the session a concurrent delivery opens, and neither a lock nor a
  unique index stands in for it.
\<close>

theorem overlapping_deliveries_leave_two_active_sessions:
  "map (\<lambda>r. (s_id r, s_customer_id r, is_active r))
     (chat_sessions (snd (handleIncomingMessage 0 (sample_message ''m1'' 0) empty_store)))
   = [(1, 1, True)]
   \<and> map_option
       (\<lambda>srv. (map d_stage (deliveries srv),
               map (\<lambda>r. (s_id r, s_customer_id r, is_active r)) (chat_sessions (database srv)),
               map (\<lambda>m. (waha_message_id m, session_id m)) (messages (database srv)),
               length (filter (\<lambda>r. s_customer_id r = 1 \<and> is_active r)
                         (chat_sessions (database srv)))))
       (run [0, 0, 0, 1, 1, 1, 0, 0, 1, 0, 0, 0, 0, 0, 1, 1, 1, 1, 1, 1]
          (deliver 2000500 (sample_message ''m3'' 2000)
            (deliver 2000000 (sample_message ''m2'' 2000)
              (idle (snd (handleIncomingMessage 0 (sample_message ''m1'' 0) empty_store))))))
     = Some ([Returned (Inr ()), Returned (Inr ())],
             [(1, 1, False), (2, 1, True), (3, 1, True)],
             [(''m1'', 1), (''m2'', 2), (''m3'', 3)],
             2)"
  by (simp add: first_delivery) (simp add: step_defs)

subsection \<open>Direction of ingested messages\<close>

lemma saveMessage_messages:
  "messages (snd (saveMessage now cid sid p s)) = messages s
   \<or> (\<exists>row. messages (snd (saveMessage now cid sid p s)) = messages s @ [row]
        \<and> is_from_me row = fromMe p)"
  by (simp add: saveMessage_def Let_def)

lemma handleIncomingMessage_unfold:
  assumes "findOrCreateCustomer now (extractPhoneNumber (p_from p))
             p (logger Info ''Processing incoming message'' s) = (Inr c, sa)"
    and "findOrCreateChatSession now (c_id c) sa = (sess, sb)"
    and "saveMessage now (c_id c) (s_id sess) p sb = (r, sc)"
  shows "handleIncomingMessage now p s =
     (if fromMe p = Some True
      then (Inr (), logger Debug ''Skipping message from self''
                      (logger Info ''Processing incoming message'' s))
      else if length (extractPhoneNumber (p_from p)) < 10
      then (Inr (), logger Info ''Message processed successfully''
                      (logger Warn ''Invalid phone number detected''
                         (logger Info ''Processing incoming message'' s)))
      else
        (case r of
           Inl e \<Rightarrow>
             (Inl (WhatsAppServiceError ''Failed to process incoming message''
                     (Some (DatabaseServiceError ''Transaction failed'' e))),
              logger Error ''Failed to handle incoming message''
                (logger Error ''Transaction failed and was rolled back''
                   (sc\<lparr>customers := customers s, chat_sessions := chat_sessions s,
                       messages := messages s\<rparr>)))
         | Inr _ \<Rightarrow>
             (Inr (), logger Info ''Message processed successfully''
                        (updateSessionStats now (s_id sess)
                           (updateCustomerStats now (c_id c) sc)))))"
  using assms
  by (auto simp: handleIncomingMessage_def handleIncomingMessage_tx_def transaction_def Let_def
           split: sum.splits)

lemma ingest_steps:
  obtains c sa sess sb r sc where
    "findOrCreateCustomer now (extractPhoneNumber (p_from p))
             p (logger Info ''Processing incoming message'' s) = (Inr c, sa)"
    "findOrCreateChatSession now (c_id c) sa = (sess, sb)"
    "saveMessage now (c_id c) (s_id sess) p sb = (r, sc)"
proof -
  let ?s0 = "logger Info ''Processing incoming message'' s"
  obtain c where c: "fst (findOrCreateCustomer now (extractPhoneNumber (p_from p)) p ?s0) = Inr c"
    using findOrCreateCustomer_ok by blast
  then have "findOrCreateCustomer now (extractPhoneNumber (p_from p)) p ?s0
      = (Inr c, snd (findOrCreateCustomer now (extractPhoneNumber (p_from p)) p ?s0))"
    by (simp add: prod_eq_iff)
  then show thesis
    by (rule that) (rule surjective_pairing)+
qed

lemma handleIncomingMessage_messages:
  "messages (snd (handleIncomingMessage now p s)) = messages s
   \<or> (fromMe p \<noteq> Some True
       \<and> (\<exists>row. messages (snd (handleIncomingMessage now p s)) = messages s @ [row]
              \<and> is_from_me row = fromMe p))"
proof -
  obtain c sa sess sb r sc where st:
    "findOrCreateCustomer now (extractPhoneNumber (p_from p))
             p (logger Info ''Processing incoming message'' s) = (Inr c, sa)"
    "findOrCreateChatSession now (c_id c) sa = (sess, sb)"
    "saveMessage now (c_id c) (s_id sess) p sb = (r, sc)"
    by (rule ingest_steps)
  have "messages sb = messages s"
    using findOrCreateCustomer_messages[of now "extractPhoneNumber (p_from p)" p
            "logger Info ''Processing incoming message'' s"]
      findOrCreateChatSession_messages[of now "c_id c" sa]
    by (simp add: st)
  with saveMessage_messages[of now "c_id c" "s_id sess" p sb]
  have m: "messages sc = messages s
      \<or> (\<exists>row. messages sc = messages s @ [row] \<and> is_from_me row = fromMe p)"
    by (simp add: st)
  show ?thesis
    unfolding handleIncomingMessage_unfold[OF st]
    using m by (auto split: sum.splits)
qed

lemma handleIncomingMessage_own_echo:
  "fromMe p = Some True \<Longrightarrow>
   handleIncomingMessage now p s =
     (Inr (), logger Debug ''Skipping message from self''
                (logger Info ''Processing incoming message'' s))"
  by (simp add: handleIncomingMessage_def)

lemma handleMessageStatus_direction:
  "map is_from_me (messages (snd (handleMessageStatus now p s))) = map is_from_me (messages s)"
  by (simp add: handleMessageStatus_def Let_def comp_def if_distrib cong: if_cong)

lemma no_business_no_latency:
  assumes "\<forall>m \<in> set msgs. isFromMe m \<noteq> Some True"
  shows "calculateAverageResponseTime msgs = 0"
proof -
  have "\<not> customer_after_business pc"
    if "pc \<in> set (consecutive_pairs (sort_key r_timestamp msgs))" for pc
  proof -
    have "(fst pc, snd pc) \<in> set (zip (sort_key r_timestamp msgs) (tl (sort_key r_timestamp msgs)))"
      using that by (simp add: consecutive_pairs_def)
    then have "fst pc \<in> set (sort_key r_timestamp msgs)"
      by (rule set_zip_leftD)
    with assms show ?thesis by (simp add: customer_after_business_def)
  qed
  then have "filter customer_after_business (consecutive_pairs (sort_key r_timestamp msgs)) = []"
    by (simp add: filter_empty_conv)
  then show ?thesis
    by (simp add: calculateAverageResponseTime_mean mean_response_latency_def)
qed

lemma history_recent_messages:
  assumes "getCustomerConversationHistory now cid s = (Inr h, s')"
  shows "\<forall>r \<in> set (recentMessages h). \<exists>m \<in> set (messages s). isFromMe r = is_from_me m"
proof -
  from assms obtain i where i: "pg_integer cid = Inr i"
    by (auto simp: getCustomerConversationHistory_def split: sum.splits)
  with assms have "recentMessages h =
      map (\<lambda>row. \<lparr>messageBody = the (message_body row), r_timestamp = timestamp row,
                     isFromMe = is_from_me row\<rparr>)
        (take 100 (sort_key (\<lambda>m. - timestamp m)
           (filter (\<lambda>m. m_customer_id m = i \<and> message_body m \<noteq> None) (messages s))))"
    by (auto simp: getCustomerConversationHistory_def Let_def split: list.splits)
  then show ?thesis
    by (auto dest!: in_set_takeD)
qed

lemma handleIncomingMessage_no_business_messages:
  assumes "no_business_messages s"
  shows "no_business_messages (snd (handleIncomingMessage now p s))"
  using assms handleIncomingMessage_messages[of now p s]
  by (auto simp: no_business_messages_def)

lemma history_without_business_messages:
  assumes "no_business_messages s"
    and "getCustomerConversationHistory t cid s = (Inr h, s')"
  shows "calculateAverageResponseTime (recentMessages h) = 0"
proof (rule no_business_no_latency)
  from assms(1) history_recent_messages[OF assms(2)]
  show "\<forall>m \<in> set (recentMessages h). isFromMe m \<noteq> Some True"
    by (auto simp: no_business_messages_def)
qed

text \<open>
  C10, evaluated at a valid inbound message that leaves fromMe out, delivered to the empty
  database: the event is not skipped and is stored, and the row's is_from_me is NULL, not
  false. The lemmas above hold all the same: an event with fromMe = true changes no row,
  no row that is added is business-originated, and a history without business messages
  has latency 0.
\<close>

theorem absent_flag_is_stored_as_null:
  "fst (handleIncomingMessage 1000 ((sample_message ''m1'' 1)\<lparr>fromMe := None\<rparr>) empty_store)
     = Inr ()
   \<and> map is_from_me
        (messages (snd (handleIncomingMessage 1000
                          ((sample_message ''m1'' 1)\<lparr>fromMe := None\<rparr>) empty_store)))
       = [None]"
  by (simp add: ingest_defs)

lemma first_history:
  "getCustomerConversationHistory t (Finite 1)
     (snd (handleIncomingMessage now (sample_message mid ts) empty_store))
   = (Inr \<lparr>h_customerId = 1, phoneNumber = ''6281234567890'', h_name = Some ''Budi'',
            totalMessages = 2, firstMessageAt = ts * 1000, lastMessageAt = now,
            totalSessions = 1, avgMessagesPerSession = 1,
            daysAsCustomer = (t - ts * 1000) div day_ms,
            recentMessages = [\<lparr>messageBody = ''halo'', r_timestamp = ts * 1000,
                                isFromMe = Some False\<rparr>]\<rparr>,
      snd (handleIncomingMessage now (sample_message mid ts) empty_store))"
  by (simp add: first_delivery getCustomerConversationHistory_def pg_integer_def)

subsection \<open>Status updates\<close>





subsection \<open>Days as customer\<close>

text \<open>
  C6, amended. For every existing customer the digest is produced, and its
  days-as-customer value is the whole-day (floored) span between the customer's first
  message timestamp, in event time, and the time at which the digest is built; the last
  message timestamp plays no part in it.
\<close>

theorem days_as_customer_since_first_message:
  assumes "c \<in> set (customers s)" and "pg_integer cid = Inr (c_id c)"
  shows "\<exists>h. fst (getCustomerConversationHistory now cid s) = Inr h
           \<and> daysAsCustomer h = (now - firstMessageAt h) div day_ms
           \<and> (\<exists>c' \<in> set (customers s). c_id c' = c_id c
                  \<and> firstMessageAt h = first_message_at c'
                  \<and> lastMessageAt h = last_message_at c')"
proof (cases "filter (\<lambda>x. c_id x = c_id c) (customers s)")
  case Nil
  with assms(1) show ?thesis by (auto simp: filter_empty_conv)
next
  case (Cons c' rest)
  then have "c' \<in> set (filter (\<lambda>x. c_id x = c_id c) (customers s))" by simp
  then have "c' \<in> set (customers s)" "c_id c' = c_id c" by simp_all
  then show ?thesis
    using Cons assms(2) by (auto simp: getCustomerConversationHistory_def Let_def)
qed

theorem days_as_customer_since_first_message_witness:
  "hd (customers (snd (handleIncomingMessage 1000 (sample_message ''m1'' 1) empty_store)))
     \<in> set (customers (snd (handleIncomingMessage 1000 (sample_message ''m1'' 1) empty_store)))
   \<and> pg_integer (Finite 1)
       = Inr (c_id (hd (customers (snd (handleIncomingMessage 1000 (sample_message ''m1'' 1)
                                          empty_store)))))
   \<and> (\<exists>h. fst (getCustomerConversationHistory (10 * day_ms + 1000) (Finite 1)
                  (snd (handleIncomingMessage 1000 (sample_message ''m1'' 1) empty_store)))
             = Inr h
           \<and> daysAsCustomer h = 10 \<and> firstMessageAt h = 1000)"
proof -
  let ?s1 = "snd (handleIncomingMessage 1000 (sample_message ''m1'' 1) empty_store)"
  have a: "hd (customers ?s1) \<in> set (customers ?s1)"
    and b: "pg_integer (Finite 1) = Inr (c_id (hd (customers ?s1)))"
    by (simp_all add: first_delivery pg_integer_def)
  from days_as_customer_since_first_message[OF a b, of "10 * day_ms + 1000"]
  obtain h where h: "fst (getCustomerConversationHistory (10 * day_ms + 1000) (Finite 1) ?s1) = Inr h"
    "daysAsCustomer h = (10 * day_ms + 1000 - firstMessageAt h) div day_ms"
    "\<exists>c' \<in> set (customers ?s1). firstMessageAt h = first_message_at c'"
    by blast
  from h(3) have "firstMessageAt h = 1000"
    by (simp add: first_delivery)
  with h(1,2) a b show ?thesis
    by (simp add: day_ms_def)
qed

text \<open>
  The claim as stated fails: ten days after a customer's only message the digest says 10
  days, while the span between first and last message is 0 days.
\<close>

theorem days_as_customer_ignores_last_message:
  "daysAsCustomer (projr (fst (getCustomerConversationHistory (10 * day_ms + 1000) (Finite 1)
       (snd (handleIncomingMessage 1000 (sample_message ''m1'' 1) empty_store))))) = 10
   \<and> (lastMessageAt (projr (fst (getCustomerConversationHistory (10 * day_ms + 1000) (Finite 1)
         (snd (handleIncomingMessage 1000 (sample_message ''m1'' 1) empty_store)))))
       - firstMessageAt (projr (fst (getCustomerConversationHistory (10 * day_ms + 1000) (Finite 1)
         (snd (handleIncomingMessage 1000 (sample_message ''m1'' 1) empty_store)))))) div day_ms
      = 0"
  by (simp add: first_history) (simp add: day_ms_def)

subsection \<open>On-demand segmentation with a non-numeric id\<close>

text \<open>
  C7, evaluated at the path parameter abc, which the built-in conversion turns into NaN:
  the schema accepts it, the customer lookup is sent to the database, which rejects the
  parameter, and the handler answers 500, not 400. No row is written, but storage is
  queried: the log holds the line of the failed query.
\<close>

theorem non_numeric_customer_id_answers_500:
  assumes "Number_js ''abc'' = NaN"
  shows "status_code (fst (WebhookController_segmentCustomer Number_js classify JSON_parse
                             now later [(''customerId'', ''abc'')] s)) = 500
     \<and> (Error, ''Database query failed'')
          \<in> set (logs (snd (WebhookController_segmentCustomer Number_js classify JSON_parse
                               now later [(''customerId'', ''abc'')] s)))
     \<and> rows (snd (WebhookController_segmentCustomer Number_js classify JSON_parse
                               now later [(''customerId'', ''abc'')] s)) = rows s"
  using assms
  by (simp add: WebhookController_segmentCustomer_def LLMService_segmentCustomer_def
        getCustomerConversationHistory_def pg_integer_def rows_def)

theorem non_numeric_customer_id_answers_500_witness:
  "(\<lambda>raw. NaN) ''abc'' = NaN
   \<and> status_code (fst (WebhookController_segmentCustomer (\<lambda>raw. NaN)
                         (\<lambda>h. Inl (JsError ''unreachable'')) (\<lambda>text. None)
                         1000 2000 [(''customerId'', ''abc'')] empty_store)) = 500
   \<and> logs (snd (WebhookController_segmentCustomer (\<lambda>raw. NaN)
                         (\<lambda>h. Inl (JsError ''unreachable'')) (\<lambda>text. None)
                         1000 2000 [(''customerId'', ''abc'')] empty_store))
     = [(Info, ''Starting customer segmentation''), (Error, ''Database query failed''),
        (Error, ''Failed to get customer conversation history''),
        (Error, ''Customer segmentation failed''), (Error, ''Manual segmentation failed'')]"
proof -
  have l: "logs (snd (WebhookController_segmentCustomer (\<lambda>raw. NaN)
                         (\<lambda>h. Inl (JsError ''unreachable'')) (\<lambda>text. None)
                         1000 2000 [(''customerId'', ''abc'')] empty_store))
     = [(Info, ''Starting customer segmentation''), (Error, ''Database query failed''),
        (Error, ''Failed to get customer conversation history''),
        (Error, ''Customer segmentation failed''), (Error, ''Manual segmentation failed'')]"
    by (simp add: WebhookController_segmentCustomer_def LLMService_segmentCustomer_def
        getCustomerConversationHistory_def pg_integer_def empty_store_def logger_def)
  from non_numeric_customer_id_answers_500[of "\<lambda>raw. NaN" "\<lambda>h. Inl (JsError ''unreachable'')"
      "\<lambda>text. None" 1000 2000 empty_store] l
  show ?thesis by simp
qed

subsection \<open>Parsing the classifier's answer\<close>

lemma parse_and_validate_Inr:
  assumes "parse_and_validate JSON_parse response = Inr r"
  shows "\<exists>v. extract_object JSON_parse response = Some v \<and> acceptable v"
    and "r_segment r \<in> set validSegments"
    and "\<exists>c. confidence r = JFinite c \<and> 0 \<le> c \<and> c \<le> 1"
proof -
  from assms obtain found where f: "match_braces response = Some found"
    by (auto simp: parse_and_validate_def split: option.splits)
  with assms obtain parsed where p: "JSON_parse found = Some parsed"
    by (auto simp: parse_and_validate_def split: option.splits)
  from assms f p obtain kvs where k: "parsed = JObject kvs"
    by (cases parsed) (auto simp: parse_and_validate_def)
  from assms f p k obtain label where l: "map_of kvs ''segment'' = Some (JString label)"
      "label \<in> set validSegments"
    by (auto simp: parse_and_validate_def split: option.splits json.splits if_splits)
  from assms f p k l obtain c where c: "map_of kvs ''confidence'' = Some (JNumber (JFinite c))"
      "0 \<le> c" "c \<le> 1"
    by (auto simp: parse_and_validate_def split: option.splits json.splits json_number.splits if_splits)
  from assms f p k l c have r: "r_segment r = label" "confidence r = JFinite c"
    by (auto simp: parse_and_validate_def)
  show "\<exists>v. extract_object JSON_parse response = Some v \<and> acceptable v"
    using f p k l c by (simp add: extract_object_def acceptable_def)
  show "r_segment r \<in> set validSegments" using r l by simp
  show "\<exists>c. confidence r = JFinite c \<and> 0 \<le> c \<and> c \<le> 1" using r c by simp
qed

text \<open>
  C4. parseSegmentationResponse returns a result for every answer; it raises nothing.
  When the answer yields no JSON object with a segment among the seven labels and a
  numeric confidence in [0,1], the result is exactly the fixed fallback: REGULAR_CUSTOMER,
  confidence 0.5, the fallback rationale, characteristics [parsing_error]. For every
  answer the returned segment is one of the seven labels and the returned confidence lies
  in [0,1]. The answer \<^verbatim>\<open>not valid json\<close> gives the fallback.
\<close>

theorem malformed_answer_falls_back:
  "((case extract_object JSON_parse response of None \<Rightarrow> True | Some v \<Rightarrow> \<not> acceptable v) \<longrightarrow>
      parseSegmentationResponse JSON_parse response s =
        (\<lparr>r_segment = ''REGULAR_CUSTOMER'', confidence = JFinite 0.5,
          reasoning = JString ''Failed to parse LLM response, assigned default segment'',
          characteristics = [JString ''parsing_error'']\<rparr>,
         logger Error ''Failed to parse LLM segmentation response'' s))
   \<and> r_segment (fst (parseSegmentationResponse JSON_parse response s)) \<in> set validSegments
   \<and> (\<exists>c. confidence (fst (parseSegmentationResponse JSON_parse response s)) = JFinite c
          \<and> 0 \<le> c \<and> c \<le> 1)
   \<and> fst (parseSegmentationResponse JSON_parse ''not valid json'' s) =
        \<lparr>r_segment = ''REGULAR_CUSTOMER'', confidence = JFinite 0.5,
         reasoning = JString ''Failed to parse LLM response, assigned default segment'',
         characteristics = [JString ''parsing_error'']\<rparr>"
proof (intro conjI impI)
  assume h: "case extract_object JSON_parse response of None \<Rightarrow> True | Some v \<Rightarrow> \<not> acceptable v"
  have "\<exists>e. parse_and_validate JSON_parse response = Inl e"
  proof (cases "parse_and_validate JSON_parse response")
    case (Inr r)
    from parse_and_validate_Inr(1)[OF this] h show ?thesis by auto
  qed simp
  then show "parseSegmentationResponse JSON_parse response s =
        (\<lparr>r_segment = ''REGULAR_CUSTOMER'', confidence = JFinite 0.5,
          reasoning = JString ''Failed to parse LLM response, assigned default segment'',
          characteristics = [JString ''parsing_error'']\<rparr>,
         logger Error ''Failed to parse LLM segmentation response'' s)"
    by (auto simp: parseSegmentationResponse_def fallback_result_def)
next
  show "r_segment (fst (parseSegmentationResponse JSON_parse response s)) \<in> set validSegments"
    by (cases "parse_and_validate JSON_parse response")
       (auto simp: parseSegmentationResponse_def fallback_result_def validSegments_def
             dest: parse_and_validate_Inr(2))
  show "\<exists>c. confidence (fst (parseSegmentationResponse JSON_parse response s)) = JFinite c
          \<and> 0 \<le> c \<and> c \<le> 1"
    by (cases "parse_and_validate JSON_parse response")
       (auto simp: parseSegmentationResponse_def fallback_result_def
             dest: parse_and_validate_Inr(3) intro: exI[of _ "1 / 2"])
  show "fst (parseSegmentationResponse JSON_parse ''not valid json'' s) =
        \<lparr>r_segment = ''REGULAR_CUSTOMER'', confidence = JFinite 0.5,
         reasoning = JString ''Failed to parse LLM response, assigned default segment'',
         characteristics = [JString ''parsing_error'']\<rparr>"
    by (simp add: parseSegmentationResponse_def parse_and_validate_def match_braces_def
          fallback_result_def)
qed

lemma well_formed_answer_is_returned:
  "fst (parseSegmentationResponse
         (\<lambda>found. if found = ''{vip}''
                   then Some (JObject [(''segment'', JString ''VIP_CUSTOMER''),
                                       (''confidence'', JNumber (JFinite 0.9))])
                   else None)
         ''Answer: {vip} done'' s)
   = \<lparr>r_segment = ''VIP_CUSTOMER'', confidence = JFinite 0.9,
      reasoning = JString ''No reasoning provided'', characteristics = []\<rparr>"
  by (simp add: parseSegmentationResponse_def parse_and_validate_def match_braces_def
        validSegments_def)

theorem malformed_answer_falls_back_witness:
  "(case extract_object (\<lambda>found. None) ''not valid json'' of
      None \<Rightarrow> True | Some v \<Rightarrow> \<not> acceptable v)
   \<and> parseSegmentationResponse (\<lambda>found. None) ''not valid json'' empty_store =
        (\<lparr>r_segment = ''REGULAR_CUSTOMER'', confidence = JFinite 0.5,
          reasoning = JString ''Failed to parse LLM response, assigned default segment'',
          characteristics = [JString ''parsing_error'']\<rparr>,
         logger Error ''Failed to parse LLM segmentation response'' empty_store)"
proof -
  have h: "case extract_object (\<lambda>found. None) ''not valid json'' of
      None \<Rightarrow> True | Some v \<Rightarrow> \<not> acceptable v"
    by (simp add: extract_object_def match_braces_def)
  from malformed_answer_falls_back[of "\<lambda>found. None" "''not valid json''" empty_store] h
  show ?thesis by blast
qed


subsection \<open>Session stitching\<close>

lemma findOrCreateChatSession_result:
  assumes "findOrCreateChatSession now cid s = (sess, sb)"
  shows "sess \<in> set (chat_sessions sb)" and "s_customer_id sess = cid" and "is_active sess"
    and "now - thirty_minutes < session_start sess"
proof -
  let ?found = "sort_key (\<lambda>r. - session_start r)
             (filter (\<lambda>r. s_customer_id r = cid \<and> is_active r
                          \<and> session_start r > now - thirty_minutes) (chat_sessions s))"
  have "sess \<in> set (chat_sessions sb) \<and> s_customer_id sess = cid \<and> is_active sess
        \<and> now - thirty_minutes < session_start sess"
  proof (cases ?found)
    case Nil
    with assms show ?thesis
      by (auto simp: findOrCreateChatSession_def Let_def thirty_minutes_def)
  next
    case (Cons row rest)
    then have "row \<in> set ?found" by simp
    then have "row \<in> set (chat_sessions s) \<and> s_customer_id row = cid \<and> is_active row
        \<and> now - thirty_minutes < session_start row"
      by simp
    moreover from Cons assms have "sess = row" "sb = s"
      by (simp_all add: findOrCreateChatSession_def)
    ultimately show ?thesis by simp
  qed
  then show "sess \<in> set (chat_sessions sb)" and "s_customer_id sess = cid" and "is_active sess"
    and "now - thirty_minutes < session_start sess"
    by simp_all
qed

lemma findOrCreateChatSession_reuse:
  assumes "filter (\<lambda>r. s_customer_id r = cid \<and> is_active r) (chat_sessions s) = [x]"
    and "now - thirty_minutes < session_start x"
  shows "findOrCreateChatSession now cid s = (x, s)"
proof -
  have "filter (\<lambda>r. s_customer_id r = cid \<and> is_active r
                          \<and> session_start r > now - thirty_minutes) (chat_sessions s)
        = filter (\<lambda>r. session_start r > now - thirty_minutes)
            (filter (\<lambda>r. s_customer_id r = cid \<and> is_active r) (chat_sessions s))"
    by (simp add: conj_commute conj_left_commute cong: conj_cong)
  also have "\<dots> = [x]"
    using assms by simp
  finally show ?thesis
    by (simp add: findOrCreateChatSession_def)
qed

lemma findOrCreateChatSession_open:
  assumes "\<forall>r \<in> set (chat_sessions s). session_start r \<le> now - thirty_minutes"
    and "findOrCreateChatSession now cid s = (sess, sb)"
  shows "s_id sess = chat_sessions_id_seq s + 1"
    and "chat_sessions sb =
      map (\<lambda>r. if s_customer_id r = cid \<and> is_active r
               then r\<lparr>is_active := False, session_end := Some now, s_updated_at := now\<rparr>
               else r) (chat_sessions s) @ [sess]"
proof -
  have "filter (\<lambda>r. s_customer_id r = cid \<and> is_active r
                          \<and> session_start r > now - thirty_minutes) (chat_sessions s) = []"
    using assms(1) by (fastforce simp: filter_empty_conv)
  with assms(2) show "s_id sess = chat_sessions_id_seq s + 1"
    and "chat_sessions sb =
      map (\<lambda>r. if s_customer_id r = cid \<and> is_active r
               then r\<lparr>is_active := False, session_end := Some now, s_updated_at := now\<rparr>
               else r) (chat_sessions s) @ [sess]"
    by (auto simp: findOrCreateChatSession_def Let_def)
qed

lemma findOrCreateChatSession_starts:
  assumes "\<forall>r \<in> set (chat_sessions s). session_start r \<le> now"
  shows "\<forall>r \<in> set (chat_sessions (snd (findOrCreateChatSession now cid s))). session_start r \<le> now"
  using assms by (auto simp: findOrCreateChatSession_def Let_def split: list.splits)

lemma findOrCreateCustomer_first:
  assumes "findOrCreateCustomer now ph p s = (Inr c, sa)"
  shows "\<exists>rest. filter (\<lambda>x. phone_number x = ph) (customers sa) = c # rest"
  using assms
  by (auto simp: findOrCreateCustomer_def Let_def filter_empty_conv
           split: list.splits if_splits)

lemma findOrCreateCustomer_again:
  assumes "filter (\<lambda>x. phone_number x = ph) (customers s) = c # rest"
  shows "findOrCreateCustomer now ph p s = (Inr c, s)"
  using assms by (simp add: findOrCreateCustomer_def)

lemma bump_customers_filter:
  "filter (\<lambda>x. phone_number x = ph)
     (map (\<lambda>c. if c_id c = cid
                  then c\<lparr>total_messages := total_messages c + 1, last_message_at := now,
                         c_updated_at := now\<rparr>
                  else c) xs)
   = map (\<lambda>c. if c_id c = cid
                  then c\<lparr>total_messages := total_messages c + 1, last_message_at := now,
                         c_updated_at := now\<rparr>
                  else c) (filter (\<lambda>x. phone_number x = ph) xs)"
  by (induction xs) auto

lemma saveMessage_new:
  assumes "p_id p \<notin> set (map waha_message_id (messages s))"
  shows "\<exists>row sc. saveMessage now cid sid p s = (Inr row, sc)
           \<and> messages sc = messages s @ [row] \<and> waha_message_id row = p_id p
           \<and> session_id row = sid \<and> chat_sessions sc = chat_sessions s
           \<and> customers sc = customers s"
  using assms by (simp add: saveMessage_def Let_def)

lemma stored_step:
  assumes "fromMe p \<noteq> Some True" and "10 \<le> length (extractPhoneNumber (p_from p))"
    and "p_id p \<notin> set (map waha_message_id (messages s))"
  obtains c sa sess sb row where
    "findOrCreateCustomer now (extractPhoneNumber (p_from p)) p
       (logger Info ''Processing incoming message'' s) = (Inr c, sa)"
    "findOrCreateChatSession now (c_id c) sa = (sess, sb)"
    "fst (handleIncomingMessage now p s) = Inr ()"
    "messages (snd (handleIncomingMessage now p s)) = messages s @ [row]"
    "waha_message_id row = p_id p" "session_id row = s_id sess"
    "chat_sessions (snd (handleIncomingMessage now p s))
       = chat_sessions (updateSessionStats now (s_id sess) sb)"
    "customers (snd (handleIncomingMessage now p s))
       = customers (updateCustomerStats now (c_id c) sa)"
proof -
  obtain c sa sess sb r sc where st:
    "findOrCreateCustomer now (extractPhoneNumber (p_from p))
             p (logger Info ''Processing incoming message'' s) = (Inr c, sa)"
    "findOrCreateChatSession now (c_id c) sa = (sess, sb)"
    "saveMessage now (c_id c) (s_id sess) p sb = (r, sc)"
    by (rule ingest_steps)
  have ma: "messages sa = messages s" and csa: "chat_sessions sa = chat_sessions s"
    using findOrCreateCustomer_messages[of now "extractPhoneNumber (p_from p)" p
            "logger Info ''Processing incoming message'' s"]
      findOrCreateCustomer_sessions[of now "extractPhoneNumber (p_from p)" p
            "logger Info ''Processing incoming message'' s"]
    by (simp_all add: st)
  have mb: "messages sb = messages s" and cb: "customers sb = customers sa"
    using findOrCreateChatSession_messages[of now "c_id c" sa]
      findOrCreateChatSession_customers[of now "c_id c" sa] ma
    by (simp_all add: st)
  from saveMessage_new[of p sb now "c_id c" "s_id sess"] assms(3) mb st(3)
  obtain row where row: "r = Inr row" "messages sc = messages s @ [row]"
    "waha_message_id row = p_id p" "session_id row = s_id sess"
    "chat_sessions sc = chat_sessions sb" "customers sc = customers sb"
    by auto
  have u: "handleIncomingMessage now p s =
      (Inr (), logger Info ''Message processed successfully''
                        (updateSessionStats now (s_id sess)
                           (updateCustomerStats now (c_id c) sc)))"
    unfolding handleIncomingMessage_unfold[OF st] using assms(1,2) row(1) by simp
  show thesis
  proof (rule that[OF st(1,2)])
    show "fst (handleIncomingMessage now p s) = Inr ()" by (simp add: u)
    show "messages (snd (handleIncomingMessage now p s)) = messages s @ [row]"
      by (simp add: u row)
    show "waha_message_id row = p_id p" "session_id row = s_id sess" by fact+
    show "chat_sessions (snd (handleIncomingMessage now p s))
       = chat_sessions (updateSessionStats now (s_id sess) sb)"
      by (simp add: u updateSessionStats_def updateCustomerStats_def row)
    show "customers (snd (handleIncomingMessage now p s))
       = customers (updateCustomerStats now (c_id c) sa)"
      by (simp add: u updateCustomerStats_def row cb)
  qed
qed

lemma findOrCreateChatSession_old_or_new:
  assumes "findOrCreateChatSession now cid s = (sess, sb)"
  shows "sess \<in> set (chat_sessions s) \<or> session_start sess = now"
proof (cases "sort_key (\<lambda>r. - session_start r)
             (filter (\<lambda>r. s_customer_id r = cid \<and> is_active r
                          \<and> session_start r > now - thirty_minutes) (chat_sessions s))")
  case Nil
  with assms show ?thesis by (auto simp: findOrCreateChatSession_def Let_def)
next
  case (Cons row rest)
  then have "row \<in> set (sort_key (\<lambda>r. - session_start r)
             (filter (\<lambda>r. s_customer_id r = cid \<and> is_active r
                          \<and> session_start r > now - thirty_minutes) (chat_sessions s)))"
    by simp
  then have "row \<in> set (chat_sessions s)" by simp
  moreover from Cons assms have "sess = row" by (simp add: findOrCreateChatSession_def)
  ultimately show ?thesis by simp
qed

lemma singleton_filter:
  assumes "length (filter P xs) \<le> 1" and "x \<in> set xs" and "P x"
  shows "filter P xs = [x]"
proof -
  from assms(2,3) have "x \<in> set (filter P xs)" by simp
  with assms(1) show ?thesis
    by (cases "filter P xs") auto
qed

lemma distinct_key_eq:
  assumes "distinct (map f xs)" and "x \<in> set xs" and "y \<in> set xs" and "f x = f y"
  shows "x = y"
  using assms by (meson distinct_map inj_onD)

lemma set_map_snoc:
  "set (map f (map g xs @ [z])) = f ` (g ` set xs \<union> {z})"
  by auto

lemma insort_key_map_same_key:
  assumes "\<And>y. f (g y) = f y"
  shows "insort_key f (g a) (map g ys) = map g (insort_key f a ys)"
  by (induction ys) (simp_all add: assms)

lemma sort_key_map_same_key:
  assumes "\<And>y. f (g y) = f y"
  shows "sort_key f (map g xs) = map g (sort_key f xs)"
  by (induction xs) (simp_all add: insort_key_map_same_key[of f g, OF assms])

lemma sorted_prefix_head:
  assumes "sorted (map f ys)" and "filter R ys = x # rest"
    and "\<And>a b. R b \<Longrightarrow> f a \<le> f b \<Longrightarrow> R a"
  shows "\<exists>rest'. ys = x # rest'"
proof (cases ys)
  case Nil
  with assms(2) show ?thesis by simp
next
  case (Cons h tl)
  have "R h"
  proof -
    have "x \<in> set (filter R ys)" using assms(2) by simp
    then have x: "x \<in> set ys" "R x" by simp_all
    from assms(1) Cons x(1) have "f h \<le> f x" by auto
    with x(2) show ?thesis by (rule assms(3))
  qed
  with assms(2) Cons show ?thesis by simp
qed

text \<open>
  The session a delivery is routed to is the first among all active sessions of the
  customer in the order of the SELECT, whether it was found or opened.
\<close>

lemma findOrCreateChatSession_front:
  assumes "findOrCreateChatSession now cid s = (sess, sb)"
  shows "\<exists>rest. sort_key (\<lambda>r. - session_start r)
                  (filter (\<lambda>r. s_customer_id r = cid \<and> is_active r) (chat_sessions sb))
                = sess # rest"
proof (cases "sort_key (\<lambda>r. - session_start r)
             (filter (\<lambda>r. s_customer_id r = cid \<and> is_active r
                          \<and> session_start r > now - thirty_minutes) (chat_sessions s))")
  case Nil
  with assms have "chat_sessions sb =
      map (\<lambda>r. if s_customer_id r = cid \<and> is_active r
               then r\<lparr>is_active := False, session_end := Some now, s_updated_at := now\<rparr>
               else r) (chat_sessions s) @ [sess]"
    and "s_customer_id sess = cid" and "is_active sess"
    by (auto simp: findOrCreateChatSession_def Let_def)
  then show ?thesis
    by (simp add: filter_closed)
next
  case (Cons row rest)
  with assms have eq: "sess = row" "sb = s"
    by (simp_all add: findOrCreateChatSession_def)
  let ?all = "sort_key (\<lambda>r. - session_start r)
                (filter (\<lambda>r. s_customer_id r = cid \<and> is_active r) (chat_sessions s))"
  have "filter (\<lambda>r. session_start r > now - thirty_minutes) ?all
        = sort_key (\<lambda>r. - session_start r)
            (filter (\<lambda>r. session_start r > now - thirty_minutes)
               (filter (\<lambda>r. s_customer_id r = cid \<and> is_active r) (chat_sessions s)))"
    by (rule filter_sort)
  also have "\<dots> = row # rest"
    unfolding Cons[symmetric]
    by (simp add: conj_commute conj_left_commute cong: conj_cong)
  finally have recent: "filter (\<lambda>r. session_start r > now - thirty_minutes) ?all = row # rest" .
  have "sorted (map (\<lambda>r. - session_start r) ?all)"
    by (rule sorted_sort_key)
  from this recent have "\<exists>rest'. ?all = row # rest'"
    by (rule sorted_prefix_head) simp
  then show ?thesis by (simp add: eq)
qed

lemma findOrCreateChatSession_refind:
  assumes "sort_key (\<lambda>r. - session_start r)
             (filter (\<lambda>r. s_customer_id r = cid \<and> is_active r) (chat_sessions s)) = x # rest"
    and "now - thirty_minutes < session_start x"
  shows "findOrCreateChatSession now cid s = (x, s)"
proof -
  have "sort_key (\<lambda>r. - session_start r)
          (filter (\<lambda>r. s_customer_id r = cid \<and> is_active r
                          \<and> session_start r > now - thirty_minutes) (chat_sessions s))
        = sort_key (\<lambda>r. - session_start r)
            (filter (\<lambda>r. session_start r > now - thirty_minutes)
               (filter (\<lambda>r. s_customer_id r = cid \<and> is_active r) (chat_sessions s)))"
    by (simp add: conj_commute conj_left_commute cong: conj_cong)
  also have "\<dots> = filter (\<lambda>r. session_start r > now - thirty_minutes)
                     (sort_key (\<lambda>r. - session_start r)
                        (filter (\<lambda>r. s_customer_id r = cid \<and> is_active r) (chat_sessions s)))"
    by (rule filter_sort[symmetric])
  also have "\<dots> = x # filter (\<lambda>r. session_start r > now - thirty_minutes) rest"
    using assms by simp
  finally show ?thesis
    by (simp add: findOrCreateChatSession_def)
qed

lemma bump_front:
  "sort_key (\<lambda>r. - session_start r)
     (filter (\<lambda>r. s_customer_id r = c \<and> is_active r)
        (map (\<lambda>r. if s_id r = sid
                   then r\<lparr>message_count := message_count r + 1, s_updated_at := now\<rparr>
                   else r) xs))
   = map (\<lambda>r. if s_id r = sid
                then r\<lparr>message_count := message_count r + 1, s_updated_at := now\<rparr>
                else r)
       (sort_key (\<lambda>r. - session_start r)
          (filter (\<lambda>r. s_customer_id r = c \<and> is_active r) xs))"
  unfolding bump_filter
  by (rule sort_key_map_same_key) simp

text \<open>
  C3, amended. Two inbound messages from the same phone number, processed one after the
  other, both new and valid, are both stored, whatever the store they meet, as long as its
  session keys are distinct and issued by the sequence (PRIMARY KEY and SERIAL see to it). If the second is
  processed less than 30 minutes after the start of the session that received the first,
  both Message rows carry the same ChatSession id; this is so in particular when the
  first message opened its session and the second comes less than 30 minutes after it.
  If they are processed more than 30 minutes apart (no session starting later than the
  first processing time), the two rows carry different ChatSession ids, and the first
  session is then inactive with session_end set to the second processing time.
\<close>

theorem session_stitching:
  assumes fresh: "session_ids_fresh s0"
    and valid1: "fromMe p1 \<noteq> Some True" "10 \<le> length (extractPhoneNumber (p_from p1))"
    and valid2: "fromMe p2 \<noteq> Some True"
    and same: "extractPhoneNumber (p_from p2) = extractPhoneNumber (p_from p1)"
    and new1: "p_id p1 \<notin> set (map waha_message_id (messages s0))"
    and new2: "p_id p2 \<notin> set (map waha_message_id (messages s0))" "p_id p2 \<noteq> p_id p1"
    and s1: "s1 = snd (handleIncomingMessage now1 p1 s0)"
    and s2: "s2 = snd (handleIncomingMessage now2 p2 s1)"
  shows "\<exists>m1 m2.
      fst (handleIncomingMessage now1 p1 s0) = Inr ()
      \<and> fst (handleIncomingMessage now2 p2 s1) = Inr ()
      \<and> messages s2 = messages s0 @ [m1, m2]
      \<and> waha_message_id m1 = p_id p1 \<and> waha_message_id m2 = p_id p2
      \<and> ((\<forall>r \<in> set (chat_sessions s1).
              s_id r = session_id m1 \<longrightarrow> now2 - session_start r < thirty_minutes)
           \<longrightarrow> session_id m2 = session_id m1)
      \<and> (session_id m1 \<notin> set (map s_id (chat_sessions s0)) \<and> now2 - now1 < thirty_minutes
           \<longrightarrow> session_id m2 = session_id m1)
      \<and> (thirty_minutes < now2 - now1 \<and> (\<forall>r \<in> set (chat_sessions s0). session_start r \<le> now1)
           \<longrightarrow> session_id m2 \<noteq> session_id m1
               \<and> (\<exists>r \<in> set (chat_sessions s2). s_id r = session_id m1)
               \<and> (\<forall>r \<in> set (chat_sessions s2).
                     s_id r = session_id m1 \<longrightarrow> \<not> is_active r \<and> session_end r = Some now2))"
proof -
  let ?ph = "extractPhoneNumber (p_from p1)"
  obtain c1 sa1 sess1 sb1 m1 where step1:
    "findOrCreateCustomer now1 ?ph p1 (logger Info ''Processing incoming message'' s0) = (Inr c1, sa1)"
    "findOrCreateChatSession now1 (c_id c1) sa1 = (sess1, sb1)"
    "fst (handleIncomingMessage now1 p1 s0) = Inr ()"
    "messages s1 = messages s0 @ [m1]"
    "waha_message_id m1 = p_id p1" "session_id m1 = s_id sess1"
    "chat_sessions s1 = chat_sessions (updateSessionStats now1 (s_id sess1) sb1)"
    "customers s1 = customers (updateCustomerStats now1 (c_id c1) sa1)"
    unfolding s1 by (rule stored_step[OF valid1 new1, of now1])
  have inv1: "session_ids_fresh s1"
    unfolding s1 using fresh by (rule handleIncomingMessage_ids_fresh)
  have new2': "p_id p2 \<notin> set (map waha_message_id (messages s1))"
    using new2 step1(4,5) by simp
  have valid2': "10 \<le> length (extractPhoneNumber (p_from p2))"
    using valid1(2) same by simp
  obtain c2 sa2 sess2 sb2 m2 where step2:
    "findOrCreateCustomer now2 ?ph p2 (logger Info ''Processing incoming message'' s1) = (Inr c2, sa2)"
    "findOrCreateChatSession now2 (c_id c2) sa2 = (sess2, sb2)"
    "fst (handleIncomingMessage now2 p2 s1) = Inr ()"
    "messages s2 = messages s1 @ [m2]"
    "waha_message_id m2 = p_id p2" "session_id m2 = s_id sess2"
    "chat_sessions s2 = chat_sessions (updateSessionStats now2 (s_id sess2) sb2)"
    unfolding s2 same[symmetric] by (rule stored_step[OF valid2 valid2' new2', of now2])

  txt \<open>The second event finds the customer of the first.\<close>
  let ?bumpC = "\<lambda>c. if c_id c = c_id c1
                  then c\<lparr>total_messages := total_messages c + 1, last_message_at := now1,
                         c_updated_at := now1\<rparr>
                  else c"
  from findOrCreateCustomer_first[OF step1(1)] obtain rest where
    "filter (\<lambda>x. phone_number x = ?ph) (customers sa1) = c1 # rest" ..
  then have "filter (\<lambda>x. phone_number x = ?ph)
               (customers (logger Info ''Processing incoming message'' s1))
             = ?bumpC c1 # map ?bumpC rest"
    by (simp add: step1(8) updateCustomerStats_def bump_customers_filter)
  from findOrCreateCustomer_again[OF this, of now2 p2] step2(1)
  have c2: "c_id c2 = c_id c1" and sa2: "sa2 = logger Info ''Processing incoming message'' s1"
    by simp_all
  have cs2: "chat_sessions sa2 = chat_sessions s1"
    and sq2: "chat_sessions_id_seq sa2 = chat_sessions_id_seq s1"
    by (simp_all add: sa2)

  txt \<open>The session of the first message, as the first call leaves it.\<close>
  let ?bump1 = "\<lambda>r. if s_id r = s_id sess1
                  then r\<lparr>message_count := message_count r + 1, s_updated_at := now1\<rparr>
                  else r"
  note res1 = findOrCreateChatSession_result[OF step1(2)]
  have cs1: "chat_sessions s1 = map ?bump1 (chat_sessions sb1)"
    by (simp add: step1(7) updateSessionStats_def)
  define sess1' where "sess1' = ?bump1 sess1"
  have in1: "sess1' \<in> set (chat_sessions s1)"
  proof -
    have "?bump1 sess1 \<in> ?bump1 ` set (chat_sessions sb1)"
      using res1(1) by (rule imageI)
    then show ?thesis
      unfolding cs1 sess1'_def set_map .
  qed
  have p1: "s_id sess1' = s_id sess1" "s_customer_id sess1' = c_id c1" "is_active sess1'"
    "session_start sess1' = session_start sess1"
    using res1 by (simp_all add: sess1'_def)
  from findOrCreateChatSession_front[OF step1(2)] obtain rest1 where
    "sort_key (\<lambda>r. - session_start r)
       (filter (\<lambda>r. s_customer_id r = c_id c1 \<and> is_active r) (chat_sessions sb1))
     = sess1 # rest1" ..
  then have front: "sort_key (\<lambda>r. - session_start r)
       (filter (\<lambda>r. s_customer_id r = c_id c1 \<and> is_active r) (chat_sessions s1))
     = sess1' # map ?bump1 rest1"
    unfolding cs1 bump_front sess1'_def by simp
  have uniq: "r = sess1'" if "r \<in> set (chat_sessions s1)" "s_id r = s_id sess1" for r
    using inv1 that in1 p1(1) unfolding session_ids_fresh_def
    by (intro distinct_key_eq[of s_id "chat_sessions s1"]) auto
  have old_or_new: "sess1 \<in> set (chat_sessions s0) \<or> session_start sess1 = now1"
    using findOrCreateChatSession_old_or_new[OF step1(2)]
      findOrCreateCustomer_sessions[of now1 ?ph p1 "logger Info ''Processing incoming message'' s0"]
    by (simp add: step1(1))

  have A: "session_id m2 = session_id m1"
    if "\<forall>r \<in> set (chat_sessions s1).
              s_id r = session_id m1 \<longrightarrow> now2 - session_start r < thirty_minutes"
  proof -
    from that in1 p1(1) step1(6) have "now2 - thirty_minutes < session_start sess1'"
      by fastforce
    with front have "findOrCreateChatSession now2 (c_id c2) sa2 = (sess1', sa2)"
      by (intro findOrCreateChatSession_refind[where rest = "map ?bump1 rest1"])
         (simp_all only: c2 cs2)
    with step2(2) have "sess2 = sess1'" by simp
    then show ?thesis by (simp add: step2(6) step1(6) p1(1))
  qed
  have A': "session_id m2 = session_id m1"
    if "session_id m1 \<notin> set (map s_id (chat_sessions s0))" "now2 - now1 < thirty_minutes"
  proof (rule A, intro ballI impI)
    fix r assume "r \<in> set (chat_sessions s1)" "s_id r = session_id m1"
    then have "r = sess1'" using uniq step1(6) by simp
    moreover from that(1) old_or_new step1(6) have "session_start sess1 = now1" by auto
    ultimately show "now2 - session_start r < thirty_minutes"
      using that(2) p1(4) by simp
  qed
  have B: "session_id m2 \<noteq> session_id m1
               \<and> (\<exists>r \<in> set (chat_sessions s2). s_id r = session_id m1)
               \<and> (\<forall>r \<in> set (chat_sessions s2).
                     s_id r = session_id m1 \<longrightarrow> \<not> is_active r \<and> session_end r = Some now2)"
    if late: "thirty_minutes < now2 - now1"
      and starts0: "\<forall>r \<in> set (chat_sessions s0). session_start r \<le> now1"
  proof -
    let ?close2 = "\<lambda>r. if s_customer_id r = c_id c2 \<and> is_active r
               then r\<lparr>is_active := False, session_end := Some now2, s_updated_at := now2\<rparr>
               else r"
    let ?bump2 = "\<lambda>r. if s_id r = s_id sess2
                  then r\<lparr>message_count := message_count r + 1, s_updated_at := now2\<rparr>
                  else r"
    have "\<forall>r \<in> set (chat_sessions sa1). session_start r \<le> now1"
      using starts0
        findOrCreateCustomer_sessions[of now1 ?ph p1 "logger Info ''Processing incoming message'' s0"]
      by (simp add: step1(1))
    from findOrCreateChatSession_starts[OF this, of "c_id c1"]
    have "\<forall>r \<in> set (chat_sessions sb1). session_start r \<le> now1"
      by (simp add: step1(2))
    then have "\<forall>r \<in> set (chat_sessions s1). session_start r \<le> now1"
      unfolding cs1 by auto
    with late have "\<forall>r \<in> set (chat_sessions sa2). session_start r \<le> now2 - thirty_minutes"
      unfolding cs2 by fastforce
    note opened = findOrCreateChatSession_open[OF this step2(2)]
    from inv1 in1 have "s_id sess1' \<le> chat_sessions_id_seq s1"
      by (simp add: session_ids_fresh_def)
    with opened(1) have ne: "s_id sess2 \<noteq> s_id sess1"
      by (simp add: sq2 p1(1))
    have cs2': "chat_sessions s2 = map ?bump2 (map ?close2 (chat_sessions s1) @ [sess2])"
      by (simp add: step2(7) updateSessionStats_def opened(2) cs2)
    have closed1: "?bump2 (?close2 sess1')
        = sess1'\<lparr>is_active := False, session_end := Some now2, s_updated_at := now2\<rparr>"
      using p1 ne by (simp add: c2)
    have ex: "\<exists>r \<in> set (chat_sessions s2). s_id r = session_id m1"
    proof
      show "?bump2 (?close2 sess1') \<in> set (chat_sessions s2)"
        unfolding cs2' set_map_snoc using in1 by blast
      show "s_id (?bump2 (?close2 sess1')) = session_id m1"
        unfolding closed1 by (simp add: p1(1) step1(6))
    qed
    have all: "\<not> is_active r \<and> session_end r = Some now2"
      if "r \<in> set (chat_sessions s2)" "s_id r = session_id m1" for r
    proof -
      from that(1) have "r \<in> ?bump2 ` (?close2 ` set (chat_sessions s1) \<union> {sess2})"
        unfolding cs2' set_map_snoc .
      then obtain y where y: "r = ?bump2 y"
        and "y \<in> ?close2 ` set (chat_sessions s1) \<union> {sess2}"
        by (rule imageE)
      then have y2: "y = sess2 \<or> (\<exists>x \<in> set (chat_sessions s1). y = ?close2 x)"
        by blast
      have idr: "s_id r = s_id y" using y by simp
      with that(2) ne step1(6) have "y \<noteq> sess2" by auto
      with y2 obtain x where x: "x \<in> set (chat_sessions s1)" "y = ?close2 x" by blast
      then have "s_id x = s_id sess1"
        using idr that(2) step1(6) by (simp split: if_splits)
      with x(1) have "x = sess1'" by (rule uniq)
      with x(2) y have "r = ?bump2 (?close2 sess1')" by blast
      then have "r = sess1'\<lparr>is_active := False, session_end := Some now2,
                          s_updated_at := now2\<rparr>"
        unfolding closed1 .
      then show ?thesis by simp
    qed
    from ne ex all show ?thesis
      by (simp add: step2(6) step1(6))
  qed
  have "messages s2 = messages s0 @ [m1, m2]"
    by (simp add: step2(4) step1(4))
  with step1(3,5) step2(3,5) A A' B show ?thesis
    by blast
qed

theorem session_stitching_witness:
  "session_ids_fresh empty_store
   \<and> (61000::int) - 1000 < thirty_minutes
   \<and> (\<exists>m1 m2. messages (snd (handleIncomingMessage 61000 (sample_message ''m2'' 61)
                     (snd (handleIncomingMessage 1000 (sample_message ''m1'' 1) empty_store))))
                  = [m1, m2]
          \<and> session_id m2 = session_id m1)
   \<and> thirty_minutes < (9000000::int) - 1000
   \<and> (\<exists>m1 m2. messages (snd (handleIncomingMessage 9000000 (sample_message ''m2'' 9000)
                     (snd (handleIncomingMessage 1000 (sample_message ''m1'' 1) empty_store))))
                  = [m1, m2]
          \<and> session_id m2 \<noteq> session_id m1)
   \<and> map (\<lambda>r. (s_id r, is_active r, session_end r))
        (chat_sessions (snd (handleIncomingMessage 9000000 (sample_message ''m2'' 9000)
                     (snd (handleIncomingMessage 1000 (sample_message ''m1'' 1) empty_store)))))
      = [(1, False, Some 9000000), (2, True, None)]"
proof -
  let ?p1 = "sample_message ''m1'' 1"
  let ?s1 = "snd (handleIncomingMessage 1000 ?p1 empty_store)"
  have v1: "fromMe ?p1 \<noteq> Some True" "10 \<le> length (extractPhoneNumber (p_from ?p1))"
    and n1: "p_id ?p1 \<notin> set (map waha_message_id (messages empty_store))"
    by (simp_all add: empty_store_def) (simp_all add: sample_message_def)
  have v2: "fromMe (sample_message ''m2'' t) \<noteq> Some True"
    "extractPhoneNumber (p_from (sample_message ''m2'' t)) = extractPhoneNumber (p_from ?p1)"
    and n2: "p_id (sample_message ''m2'' t) \<notin> set (map waha_message_id (messages empty_store))"
    "p_id (sample_message ''m2'' t) \<noteq> p_id ?p1" for t
    by (simp_all add: empty_store_def) (simp_all add: sample_message_def)
  have e: "chat_sessions empty_store = []"
    and f: "session_ids_fresh empty_store"
    by (simp_all add: empty_store_def session_ids_fresh_def)
  have near: "(61000::int) - 1000 < thirty_minutes" and far: "thirty_minutes < (9000000::int) - 1000"
    by (simp_all add: thirty_minutes_def)
  from session_stitching[where ?s0.0 = empty_store and ?p1.0 = ?p1
         and ?p2.0 = "sample_message ''m2'' 61" and ?now1.0 = 1000 and ?now2.0 = 61000,
         OF f v1 v2 n1 n2 refl refl] near e
  have a: "\<exists>m1 m2. messages (snd (handleIncomingMessage 61000 (sample_message ''m2'' 61) ?s1))
                  = [m1, m2] \<and> session_id m2 = session_id m1"
    by (auto simp: empty_store_def)
  from session_stitching[where ?s0.0 = empty_store and ?p1.0 = ?p1
         and ?p2.0 = "sample_message ''m2'' 9000" and ?now1.0 = 1000 and ?now2.0 = 9000000,
         OF f v1 v2 n1 n2 refl refl] far e
  have b: "\<exists>m1 m2. messages (snd (handleIncomingMessage 9000000 (sample_message ''m2'' 9000) ?s1))
                  = [m1, m2] \<and> session_id m2 \<noteq> session_id m1"
    by (auto simp: empty_store_def)
  have c: "map (\<lambda>r. (s_id r, is_active r, session_end r))
        (chat_sessions (snd (handleIncomingMessage 9000000 (sample_message ''m2'' 9000) ?s1)))
      = [(1, False, Some 9000000), (2, True, None)]"
    by (simp add: first_delivery) (simp add: ingest_defs)
  from f near a far b c show ?thesis by blast
qed

text \<open>
  The claim as stated fails: of three messages processed at minutes 0, 20 and 40, the
  second and third are 20 minutes apart, yet the third opens a new session, because the
  session of the second started 40 minutes before.
\<close>

theorem under_thirty_minutes_apart_yet_new_session:
  "(2400000::int) - 1200000 < thirty_minutes
   \<and> map session_id
        (messages
          (snd (handleIncomingMessage 2400000 (sample_message ''m3'' 2400)
            (snd (handleIncomingMessage 1200000 (sample_message ''m2'' 1200)
              (snd (handleIncomingMessage 0 (sample_message ''m1'' 0) empty_store)))))))
       = [1, 1, 2]"
  by (simp add: first_delivery) (simp add: ingest_defs)

subsection \<open>First message of a new customer\<close>

text \<open>
  Whatever the store, a stored first message of an unseen number leaves that number's
  customer row with a total of 2.
\<close>

lemma findOrCreateCustomer_unseen:
  assumes "ph \<notin> set (map phone_number (customers s))"
    and "findOrCreateCustomer now ph p s = (Inr c, sa)"
  shows "customers sa = customers s @ [c]" and "phone_number c = ph" and "total_messages c = 1"
proof -
  have "filter (\<lambda>x. phone_number x = ph) (customers s) = []"
    using assms(1) by (force simp: filter_empty_conv)
  with assms show "customers sa = customers s @ [c]" and "phone_number c = ph"
    and "total_messages c = 1"
    by (auto simp: findOrCreateCustomer_def Let_def)
qed

lemma new_customer_total_messages:
  assumes "fromMe p \<noteq> Some True" and "10 \<le> length (extractPhoneNumber (p_from p))"
    and "p_id p \<notin> set (map waha_message_id (messages s))"
    and "extractPhoneNumber (p_from p) \<notin> set (map phone_number (customers s))"
  shows "map total_messages
           (filter (\<lambda>c. phone_number c = extractPhoneNumber (p_from p))
              (customers (snd (handleIncomingMessage now p s)))) = [2]"
proof -
  let ?ph = "extractPhoneNumber (p_from p)"
  obtain c sa where
    c: "findOrCreateCustomer now ?ph p (logger Info ''Processing incoming message'' s)
          = (Inr c, sa)"
    and cs: "customers (snd (handleIncomingMessage now p s))
          = customers (updateCustomerStats now (c_id c) sa)"
    by (rule stored_step[OF assms(1-3), of now]) 
  have "?ph \<notin> set (map phone_number (customers (logger Info ''Processing incoming message'' s)))"
    using assms(4) by simp
  note u = findOrCreateCustomer_unseen[OF this c]
  have "filter (\<lambda>x. phone_number x = ?ph) (customers s) = []"
    using assms(4) by (force simp: filter_empty_conv)
  then have "filter (\<lambda>x. phone_number x = ?ph) (customers sa) = [c]"
    using u by simp
  then show ?thesis
    unfolding cs updateCustomerStats_def
    using u(3) by (simp add: bump_customers_filter)
qed

text \<open>
  C1, evaluated on the empty database with a valid inbound message from the unseen number
  6281234567890: the call succeeds and leaves one Customer, one ChatSession (message
  count 1) and one Message, but the Customer's total_messages is 2, not 1: the INSERT
  seeds the counter with 1 and updateCustomerStats then adds 1 for the same message.
\<close>

theorem new_customer_counted_twice:
  "fst (handleIncomingMessage 1700000000500 (sample_message ''m1'' 1700000000) empty_store)
     = Inr ()
   \<and> map total_messages
        (filter (\<lambda>c. phone_number c = ''6281234567890'')
           (customers (snd (handleIncomingMessage 1700000000500
                              (sample_message ''m1'' 1700000000) empty_store)))) = [2]
   \<and> map message_count
        (chat_sessions (snd (handleIncomingMessage 1700000000500
                              (sample_message ''m1'' 1700000000) empty_store))) = [1]
   \<and> length (messages (snd (handleIncomingMessage 1700000000500
                              (sample_message ''m1'' 1700000000) empty_store))) = 1"
  by (simp add: first_delivery)

end
